theory Spec2Isabelle
  imports Main "HOL-Library.Word"
begin

unbundle bit_operations_syntax

section \<open>Values of the host language\<close>

text \<open>
  The repository holds two variants of one module, src/index.ts and src/unnamed/part_000.
  A function whose text is the same in both is defined once; where the texts differ, the
  function of src/index.ts keeps its name and the one of src/unnamed/part_000, called the
  other variant below, has the suffix \<open>_part000\<close>.

  A \<open>Buffer\<close> is a sequence of bytes. A JavaScript string is a sequence of UTF-16 code
  units. Every function of the source that throws, or whose promise rejects, returns
  \<open>Inl\<close> of an \<open>error\<close>; a promise that resolves is \<open>Inr\<close> of its value. The source awaits
  each promise before it goes on, so an asynchronous function is modelled by the
  function from its arguments to its outcome.
\<close>

type_synonym byte = "8 word"
type_synonym Buffer = "byte list"
type_synonym jsstring = "16 word list"

datatype error =
    EmptyPath \<comment> \<open>'name path is empty array, can not create get the key path.'\<close>
  | AccountNotFound \<comment> \<open>'Unable to find the given account.'\<close>
  | InvalidNameAccountData \<comment> \<open>'Invalid name account data'\<close>
  | InvalidPublicKeyInput \<comment> \<open>thrown by \<open>new PublicKey\<close>\<close>
  | NoProgramAddress \<comment> \<open>\<open>PublicKey.findProgramAddress\<close> rejected\<close>

definition andThen :: "error + 'a \<Rightarrow> ('a \<Rightarrow> error + 'b) \<Rightarrow> error + 'b" where
  "andThen r f = (case r of Inl e \<Rightarrow> Inl e | Inr v \<Rightarrow> f v)"

text \<open>\<open>Buffer.alloc(n)\<close> is \<open>n\<close> zero bytes.\<close>

definition alloc :: "nat \<Rightarrow> Buffer" where
  "alloc n = replicate n 0"

text \<open>
  \<open>buf.slice(start, end)\<close> and \<open>buf.slice(start)\<close> for indices that are not negative, the
  only ones the source uses. Both ends are clamped to the length of the buffer.
\<close>

definition slice :: "Buffer \<Rightarrow> nat \<Rightarrow> nat \<Rightarrow> Buffer" where
  "slice buf start end' = take (end' - start) (drop start buf)"

definition slice_from :: "Buffer \<Rightarrow> nat \<Rightarrow> Buffer" where
  "slice_from buf start = drop start buf"

text \<open>
  A \<open>Buffer\<close> is an object, and every object is truthy, the empty buffer too: \<open>!buf\<close>
  is false for every buffer.
\<close>

definition falsy :: "Buffer \<Rightarrow> bool" where
  "falsy buf = False"

text \<open>An ASCII string literal of the source, as code units.\<close>

definition ascii :: "string \<Rightarrow> jsstring" where
  "ascii s = map (\<lambda>c. of_nat (of_char c)) s"

subsection \<open>\<open>PublicKey\<close> of @solana/web3.js\<close>

text \<open>
  The library keeps a key as the big number that the given bytes spell, most significant
  byte first, and rejects a number of more than 32 bytes; \<open>toBuffer\<close> writes the number
  back, padded with zero bytes on the left to 32 bytes. The model holds the key as that
  32-byte buffer: \<open>new_PublicKey\<close> drops the leading zero bytes, as reading a number does,
  and pads.
\<close>

datatype PublicKey = PublicKey (toBuffer: Buffer)

definition new_PublicKey :: "Buffer \<Rightarrow> error + PublicKey" where
  "new_PublicKey bytes =
     (let digits = dropWhile (\<lambda>b. b = 0) bytes
      in if 32 < length digits then Inl InvalidPublicKeyInput
         else Inr (PublicKey (alloc (32 - length digits) @ digits)))"

text \<open>
  \<open>PublicKey.findProgramAddress(seeds, programId)\<close> is the library's: it resolves to an
  address and the nonce it found, or rejects. It is a parameter of every function that
  derives an address.
\<close>

type_synonym findProgramAddress = "Buffer list \<Rightarrow> PublicKey \<Rightarrow> (PublicKey \<times> byte) option"

section \<open>Hashing a name\<close>

subsection \<open>UTF-8\<close>

text \<open>
  \<open>update(input, 'utf8')\<close> writes the string as UTF-8: one to three bytes for a code unit
  outside the surrogate range, four bytes for a high surrogate followed by a low one, and
  the three bytes of U+FFFD for a surrogate that stands alone.
\<close>

definition utf8_replacement :: Buffer where
  "utf8_replacement = [0xEF, 0xBF, 0xBD]"

definition utf8_continuation :: "32 word \<Rightarrow> byte" where
  "utf8_continuation x = 0x80 OR (ucast x AND 0x3F)"

definition utf8_code_point :: "32 word \<Rightarrow> Buffer" where
  "utf8_code_point cp =
     (if cp < 0x80 then [ucast cp]
      else if cp < 0x800 then [0xC0 OR ucast (drop_bit 6 cp), utf8_continuation cp]
      else if cp < 0x10000 then
        [0xE0 OR ucast (drop_bit 12 cp), utf8_continuation (drop_bit 6 cp), utf8_continuation cp]
      else
        [0xF0 OR ucast (drop_bit 18 cp), utf8_continuation (drop_bit 12 cp),
         utf8_continuation (drop_bit 6 cp), utf8_continuation cp])"

definition is_high_surrogate :: "16 word \<Rightarrow> bool" where
  "is_high_surrogate u = (0xD800 \<le> u \<and> u < 0xDC00)"

definition is_low_surrogate :: "16 word \<Rightarrow> bool" where
  "is_low_surrogate u = (0xDC00 \<le> u \<and> u < 0xE000)"

definition surrogate_pair :: "16 word \<Rightarrow> 16 word \<Rightarrow> 32 word" where
  "surrogate_pair hi lo = 0x10000 + push_bit 10 (ucast (hi - 0xD800)) + ucast (lo - 0xDC00)"

fun utf8 :: "jsstring \<Rightarrow> Buffer" where
  "utf8 [] = []"
| "utf8 [u] =
     (if is_high_surrogate u \<or> is_low_surrogate u then utf8_replacement
      else utf8_code_point (ucast u))"
| "utf8 (u # v # rest) =
     (if is_high_surrogate u then
        (if is_low_surrogate v then utf8_code_point (surrogate_pair u v) @ utf8 rest
         else utf8_replacement @ utf8 (v # rest))
      else if is_low_surrogate u then utf8_replacement @ utf8 (v # rest)
      else utf8_code_point (ucast u) @ utf8 (v # rest))"

subsection \<open>SHA-256\<close>

text \<open>
  \<open>createHash('sha256')\<close> is the hash of FIPS 180-4: the message is padded to a multiple
  of 64 bytes and the eight words of the state are updated by each block in turn.
\<close>

type_synonym u32 = "32 word"

definition rotr :: "nat \<Rightarrow> u32 \<Rightarrow> u32" where
  "rotr n x = drop_bit n x OR push_bit (32 - n) x"

text \<open>
  The constants of the standard are the first 32 bits of the fractional parts of the cube
  roots of the first 64 primes, and the initial state the same of the square roots of the
  first 8 primes. \<open>root k x b r\<close> completes \<open>r\<close> by the bits below \<open>b\<close> to the largest
  number whose \<open>k\<close>-th power is at most \<open>x\<close>.
\<close>

definition first_primes :: "int list" where
  "first_primes =
     [2, 3, 5, 7, 11, 13, 17, 19, 23, 29, 31, 37, 41, 43, 47, 53, 59, 61, 67, 71, 73,
      79, 83, 89, 97, 101, 103, 107, 109, 113, 127, 131, 137, 139, 149, 151, 157, 163,
      167, 173, 179, 181, 191, 193, 197, 199, 211, 223, 227, 229, 233, 239, 241, 251,
      257, 263, 269, 271, 277, 281, 283, 293, 307, 311]"

fun root :: "nat \<Rightarrow> int \<Rightarrow> nat \<Rightarrow> int \<Rightarrow> int" where
  "root k x 0 r = r"
| "root k x (Suc b) r = root k x b (if (r + 2 ^ b) ^ k \<le> x then r + 2 ^ b else r)"

definition sha256_K :: "u32 list" where
  "sha256_K = map (\<lambda>p. word_of_int (root 3 (p * 2 ^ 96) 36 0)) first_primes"

definition sha256_H0 :: "u32 list" where
  "sha256_H0 = map (\<lambda>p. word_of_int (root 2 (p * 2 ^ 64) 36 0)) (take 8 first_primes)"

definition be32 :: "Buffer \<Rightarrow> u32" where
  "be32 bs = foldl (\<lambda>a b. push_bit 8 a OR ucast b) 0 bs"

definition u32_bytes :: "u32 \<Rightarrow> Buffer" where
  "u32_bytes w = [ucast (drop_bit 24 w), ucast (drop_bit 16 w), ucast (drop_bit 8 w), ucast w]"

definition u64_bytes :: "64 word \<Rightarrow> Buffer" where
  "u64_bytes w = map (\<lambda>i. ucast (drop_bit (8 * (7 - i)) w)) [0..<8]"

definition sha256_pad :: "Buffer \<Rightarrow> Buffer" where
  "sha256_pad m =
     m @ [0x80] @ replicate ((119 - length m mod 64) mod 64) 0 @ u64_bytes (of_nat (8 * length m))"

fun sha256_words :: "nat \<Rightarrow> Buffer \<Rightarrow> u32 list" where
  "sha256_words 0 block = []"
| "sha256_words (Suc n) block = be32 (take 4 block) # sha256_words n (drop 4 block)"

fun sha256_schedule :: "nat \<Rightarrow> u32 list \<Rightarrow> u32 list" where
  "sha256_schedule 0 w = w"
| "sha256_schedule (Suc n) w =
     (let i = length w;
          w15 = w ! (i - 15);
          w2 = w ! (i - 2);
          s0 = rotr 7 w15 XOR rotr 18 w15 XOR drop_bit 3 w15;
          s1 = rotr 17 w2 XOR rotr 19 w2 XOR drop_bit 10 w2
      in sha256_schedule n (w @ [w ! (i - 16) + s0 + w ! (i - 7) + s1]))"

fun sha256_round :: "u32 list \<Rightarrow> u32 \<times> u32 \<Rightarrow> u32 list" where
  "sha256_round [a, b, c, d, e, f, g, h] (k, w) =
     (let S1 = rotr 6 e XOR rotr 11 e XOR rotr 25 e;
          ch = (e AND f) XOR (NOT e AND g);
          t1 = h + S1 + ch + k + w;
          S0 = rotr 2 a XOR rotr 13 a XOR rotr 22 a;
          maj = (a AND b) XOR (a AND c) XOR (b AND c);
          t2 = S0 + maj
      in [t1 + t2, a, b, c, d + t1, e, f, g])"
| "sha256_round s kw = s"

definition sha256_compress :: "u32 list \<Rightarrow> Buffer \<Rightarrow> u32 list" where
  "sha256_compress h block =
     (let w = sha256_schedule 48 (sha256_words 16 block)
      in map2 (+) h (foldl sha256_round h (zip sha256_K w)))"

function sha256_blocks :: "Buffer \<Rightarrow> Buffer list" where
  "sha256_blocks m = (if length m < 64 then [] else take 64 m # sha256_blocks (drop 64 m))"
  by pat_completeness auto
termination
  by (relation "measure length") auto

definition sha256 :: "Buffer \<Rightarrow> Buffer" where
  "sha256 m = concat (map u32_bytes (foldl sha256_compress sha256_H0 (sha256_blocks (sha256_pad m))))"

subsection \<open>\<open>getHashedName\<close>\<close>

definition HASH_PREFIX :: jsstring where
  "HASH_PREFIX = ascii ''SPL Name Service''"

definition getHashedName :: "jsstring \<Rightarrow> Buffer" where
  "getHashedName name =
     (let input = HASH_PREFIX @ name;
          buffer = sha256 (utf8 input)
      in buffer)"

section \<open>Deriving the key of a name account\<close>

text \<open>
  \<open>new PublicKey(text)\<close> reads the text as a number in base 58, most significant digit
  first; every leading \<open>1\<close> stands for a leading zero byte, and the bytes must be 32.
\<close>

definition BASE58 :: string where
  "BASE58 = ''123456789ABCDEFGHJKLMNPQRSTUVWXYZabcdefghijkmnopqrstuvwxyz''"

fun index_of :: "'a \<Rightarrow> 'a list \<Rightarrow> int option" where
  "index_of x [] = None"
| "index_of x (y # ys) = (if x = y then Some 0 else map_option (\<lambda>i. i + 1) (index_of x ys))"

fun bs58_number :: "int \<Rightarrow> string \<Rightarrow> int option" where
  "bs58_number acc [] = Some acc"
| "bs58_number acc (c # cs) =
     (case index_of c BASE58 of
        None \<Rightarrow> None
      | Some d \<Rightarrow> bs58_number (acc * 58 + d) cs)"

function int_bytes :: "int \<Rightarrow> Buffer" where
  "int_bytes n = (if n \<le> 0 then [] else int_bytes (n div 256) @ [of_int (n mod 256)])"
  by pat_completeness auto
termination
  by (relation "measure nat") auto

definition bs58_decode :: "string \<Rightarrow> Buffer option" where
  "bs58_decode s =
     map_option (\<lambda>n. alloc (length (takeWhile (\<lambda>c. c = CHR ''1'') s)) @ int_bytes n)
       (bs58_number 0 s)"

definition new_PublicKey_base58 :: "string \<Rightarrow> error + PublicKey" where
  "new_PublicKey_base58 s =
     (case bs58_decode s of
        None \<Rightarrow> Inl InvalidPublicKeyInput
      | Some decoded \<Rightarrow>
          if length decoded \<noteq> 32 then Inl InvalidPublicKeyInput else new_PublicKey decoded)"

definition NAME_PROGRAM_ID_BASE58 :: string where
  "NAME_PROGRAM_ID_BASE58 = ''namesLPneVptA9Z5rqUDD9tMTWEJwofgaYwp8cawRkX''"

text \<open>
  \<open>NAME_PROGRAM_ID\<close> is \<open>new PublicKey(NAME_PROGRAM_ID_BASE58)\<close>, which does not throw: the
  key below (\<open>NAME_PROGRAM_ID_base58\<close>).
\<close>

definition NAME_PROGRAM_ID :: PublicKey where
  "NAME_PROGRAM_ID = PublicKey
     [0x0b, 0xad, 0x51, 0xf4, 0x13, 0xc1, 0xf3, 0xa9, 0x94, 0x60, 0xd9, 0x00, 0xd8, 0xbf, 0x2e, 0xd6,
      0x92, 0x7e, 0xca, 0x34, 0xd7, 0xb7, 0x84, 0x2b, 0xf8, 0x10, 0xa9, 0x73, 0x08, 0x2d, 0x1e, 0xdc]"

text \<open>\<open>resolveNameAccountKey\<close>, the same text in both variants of the file.\<close>

definition resolveNameAccountKey ::
  "findProgramAddress \<Rightarrow> Buffer \<Rightarrow> PublicKey option \<Rightarrow> PublicKey option \<Rightarrow> error + PublicKey" where
  "resolveNameAccountKey fpa hashed_name nameClass nameParent =
     (let seeds = [hashed_name];
          seeds = (case nameClass of
                     Some c \<Rightarrow> seeds @ [toBuffer c]
                   | None \<Rightarrow> seeds @ [alloc 32]);
          seeds = (case nameParent of
                     Some p \<Rightarrow> seeds @ [toBuffer p]
                   | None \<Rightarrow> seeds @ [alloc 32])
      in case fpa seeds NAME_PROGRAM_ID of
           Some (nameAccountKey, nonce) \<Rightarrow> Inr nameAccountKey
         | None \<Rightarrow> Inl NoProgramAddress)"

text \<open>
  \<open>resolveNameAccountKeyByName(name, parent?, klass?)\<close> of src/index.ts, and
  \<open>resolveNameAccountKeyByName(name, klass?, parent?)\<close> of the other variant. An argument
  that a call leaves out is \<open>None\<close>.
\<close>

definition resolveNameAccountKeyByName ::
  "findProgramAddress \<Rightarrow> jsstring \<Rightarrow> PublicKey option \<Rightarrow> PublicKey option \<Rightarrow> error + PublicKey" where
  "resolveNameAccountKeyByName fpa name parent klass =
     resolveNameAccountKey fpa (getHashedName name) klass parent"

definition resolveNameAccountKeyByName_part000 ::
  "findProgramAddress \<Rightarrow> jsstring \<Rightarrow> PublicKey option \<Rightarrow> PublicKey option \<Rightarrow> error + PublicKey" where
  "resolveNameAccountKeyByName_part000 fpa name klass parent =
     resolveNameAccountKey fpa (getHashedName name) klass parent"

section \<open>Resolving a path\<close>

text \<open>
  The loop of \<open>resolve_UTF8_ONS\<close>, from the state before the test \<open>i >= 0\<close>. The index
  stays between \<open>-1\<close> and the last index of \<open>path\<close>, so \<open>path[i]\<close> is always an element.
  \<open>keys.unshift(nameKey)\<close> puts the key at the front.
\<close>

function resolve_UTF8_ONS_loop ::
  "findProgramAddress \<Rightarrow> jsstring list \<Rightarrow> int \<Rightarrow> PublicKey option \<Rightarrow> PublicKey list
   \<Rightarrow> error + PublicKey list" where
  "resolve_UTF8_ONS_loop fpa path i parentNameKey keys =
     (if i \<ge> 0 then
        (let name = path ! nat i in
         case resolveNameAccountKeyByName fpa name parentNameKey None of
           Inl e \<Rightarrow> Inl e
         | Inr nameKey \<Rightarrow>
             resolve_UTF8_ONS_loop fpa path (i - 1) (Some nameKey) (nameKey # keys))
      else Inr keys)"
  by pat_completeness auto
termination
  by (relation "measure (\<lambda>(fpa, path, i, parentNameKey, keys). nat (i + 1))") auto

definition resolve_UTF8_ONS ::
  "findProgramAddress \<Rightarrow> jsstring list \<Rightarrow> PublicKey option \<Rightarrow> error + PublicKey list" where
  "resolve_UTF8_ONS fpa path unknownParent =
     (if length path = 0 then Inl EmptyPath
      else resolve_UTF8_ONS_loop fpa path (int (length path) - 1) unknownParent [])"

text \<open>The same loop in the other variant, which passes \<open>undefined\<close> for the class.\<close>

function resolve_UTF8_ONS_loop_part000 ::
  "findProgramAddress \<Rightarrow> jsstring list \<Rightarrow> int \<Rightarrow> PublicKey option \<Rightarrow> PublicKey list
   \<Rightarrow> error + PublicKey list" where
  "resolve_UTF8_ONS_loop_part000 fpa path i parentNameKey keys =
     (if i \<ge> 0 then
        (let name = path ! nat i in
         case resolveNameAccountKeyByName_part000 fpa name None parentNameKey of
           Inl e \<Rightarrow> Inl e
         | Inr nameKey \<Rightarrow>
             resolve_UTF8_ONS_loop_part000 fpa path (i - 1) (Some nameKey) (nameKey # keys))
      else Inr keys)"
  by pat_completeness auto
termination
  by (relation "measure (\<lambda>(fpa, path, i, parentNameKey, keys). nat (i + 1))") auto

definition resolve_UTF8_ONS_part000 ::
  "findProgramAddress \<Rightarrow> jsstring list \<Rightarrow> PublicKey option \<Rightarrow> error + PublicKey list" where
  "resolve_UTF8_ONS_part000 fpa path unknownParent =
     (if length path = 0 then Inl EmptyPath
      else resolve_UTF8_ONS_loop_part000 fpa path (int (length path) - 1) unknownParent [])"

subsection \<open>\<open>resolve_STD_ONS\<close>\<close>

text \<open>
  \<open>trim\<close> removes the white space and the line terminators of ECMAScript from both ends.
  \<open>split\<close> cuts the string at every occurrence of a separator of one code unit.
  \<open>toLowerCase\<close> follows the case mappings of Unicode; it is a parameter.
\<close>

definition is_white_space :: "16 word \<Rightarrow> bool" where
  "is_white_space u =
     (u \<in> set [0x0009, 0x000A, 0x000B, 0x000C, 0x000D, 0x0020, 0x00A0, 0x1680,
               0x2028, 0x2029, 0x202F, 0x205F, 0x3000, 0xFEFF]
      \<or> (0x2000 \<le> u \<and> u \<le> 0x200A))"

definition trim :: "jsstring \<Rightarrow> jsstring" where
  "trim s = rev (dropWhile is_white_space (rev (dropWhile is_white_space s)))"

fun split_loop :: "16 word \<Rightarrow> jsstring \<Rightarrow> jsstring \<Rightarrow> jsstring list" where
  "split_loop sep cur [] = [cur]"
| "split_loop sep cur (c # cs) =
     (if c = sep then cur # split_loop sep [] cs else split_loop sep (cur @ [c]) cs)"

definition split :: "jsstring \<Rightarrow> 16 word \<Rightarrow> jsstring list" where
  "split s sep = split_loop sep [] s"

definition resolve_STD_ONS ::
  "(jsstring \<Rightarrow> jsstring) \<Rightarrow> findProgramAddress \<Rightarrow> jsstring \<Rightarrow> PublicKey option
   \<Rightarrow> error + PublicKey list" where
  "resolve_STD_ONS toLowerCase fpa domain unknownParent =
     (let names = split (toLowerCase (trim domain)) 0x2E
      in resolve_UTF8_ONS fpa names unknownParent)"

section \<open>Parsing a name account\<close>

record ('t, 'n) AccountInfo =
  executable :: bool
  owner :: PublicKey
  lamports :: 'n
  data :: 't
  rentEpoch :: "'n option"

text \<open>
  \<open>AccountInfo<T>\<close> is the type of @solana/web3.js; \<open>'n\<close> stands for \<open>number\<close>, whose
  values the source only copies. The result of \<open>parseNameAccountInfo\<close> in src/index.ts is
  an object literal, the record \<open>NameAccount\<close> here; the other variant of the file returns a
  \<open>NameInfo\<close>, an \<open>AccountInfo<NameData>\<close>. The field \<open>class\<close> is written \<open>klass\<close>.
\<close>

record 'n NameAccount =
  parentName :: PublicKey
  owner :: PublicKey
  klass :: PublicKey
  data :: Buffer
  lamports :: 'n
  rentEpoch :: "'n option"

record NameData =
  name :: PublicKey
  parentName :: PublicKey
  owner :: PublicKey
  klass :: PublicKey
  extra :: Buffer

type_synonym 'n NameInfo = "(NameData, 'n) AccountInfo"

text \<open>\<open>parseNameAccountInfo\<close> of src/index.ts.\<close>

definition parseNameAccountInfo ::
  "(Buffer, 'n) AccountInfo option \<Rightarrow> error + 'n NameAccount" where
  "parseNameAccountInfo nameAccount =
     (let KEY_LEN = 32; HEADER_LEN = 96 in
      case nameAccount of
        None \<Rightarrow> Inl AccountNotFound
      | Some acc \<Rightarrow>
          if falsy (AccountInfo.data acc) \<or> length (AccountInfo.data acc) < HEADER_LEN
          then Inl InvalidNameAccountData
          else
            let parentNameKey = slice (AccountInfo.data acc) 0 KEY_LEN;
                ownerKey = slice (AccountInfo.data acc) (1 * KEY_LEN) (2 * KEY_LEN);
                classKey = slice (AccountInfo.data acc) (2 * KEY_LEN) (3 * KEY_LEN);
                extra = slice_from (AccountInfo.data acc) HEADER_LEN
            in andThen (new_PublicKey parentNameKey) (\<lambda>parentName'.
               andThen (new_PublicKey ownerKey) (\<lambda>owner'.
               andThen (new_PublicKey classKey) (\<lambda>class'.
               Inr \<lparr> NameAccount.parentName = parentName',
                     NameAccount.owner = owner',
                     NameAccount.klass = class',
                     NameAccount.data = extra,
                     NameAccount.lamports = AccountInfo.lamports acc,
                     NameAccount.rentEpoch = AccountInfo.rentEpoch acc \<rparr>))))"

text \<open>
  \<open>parseNameAccountInfo\<close> of the other variant: it takes the key of the name and spreads the
  account into the result, replacing \<open>data\<close>.
\<close>

definition parseNameAccountInfo_part000 ::
  "PublicKey \<Rightarrow> (Buffer, 'n) AccountInfo option \<Rightarrow> error + 'n NameInfo" where
  "parseNameAccountInfo_part000 nameKey nameAccount =
     (let KEY_LEN = 32; HEADER_LEN = 96 in
      case nameAccount of
        None \<Rightarrow> Inl AccountNotFound
      | Some acc \<Rightarrow>
          if falsy (AccountInfo.data acc) \<or> length (AccountInfo.data acc) < HEADER_LEN
          then Inl InvalidNameAccountData
          else
            let parentNameKey = slice (AccountInfo.data acc) 0 KEY_LEN;
                ownerKey = slice (AccountInfo.data acc) (1 * KEY_LEN) (2 * KEY_LEN);
                classKey = slice (AccountInfo.data acc) (2 * KEY_LEN) (3 * KEY_LEN);
                extra = slice_from (AccountInfo.data acc) HEADER_LEN
            in andThen (new_PublicKey parentNameKey) (\<lambda>parentName'.
               andThen (new_PublicKey ownerKey) (\<lambda>owner'.
               andThen (new_PublicKey classKey) (\<lambda>class'.
               Inr \<lparr> AccountInfo.executable = AccountInfo.executable acc,
                     AccountInfo.owner = AccountInfo.owner acc,
                     AccountInfo.lamports = AccountInfo.lamports acc,
                     AccountInfo.data =
                       \<lparr> NameData.name = nameKey,
                         NameData.parentName = parentName',
                         NameData.owner = owner',
                         NameData.klass = class',
                         NameData.extra = extra \<rparr>,
                     AccountInfo.rentEpoch = AccountInfo.rentEpoch acc \<rparr>))))"

section \<open>Properties of \<open>PublicKey\<close>\<close>

lemma takeWhile_zero_replicate:
  "takeWhile (\<lambda>b. b = (0::byte)) xs = replicate (length (takeWhile (\<lambda>b. b = 0) xs)) 0"
  by (induction xs) auto

lemma pad_dropWhile_zero:
  "alloc (length xs - length (dropWhile (\<lambda>b. b = 0) xs)) @ dropWhile (\<lambda>b. b = 0) xs = xs"
proof -
  have "length xs - length (dropWhile (\<lambda>b. b = 0) xs) = length (takeWhile (\<lambda>b. b = 0) xs)"
    by (metis add_diff_cancel_right' length_append takeWhile_dropWhile_id)
  then have "alloc (length xs - length (dropWhile (\<lambda>b. b = 0) xs)) = takeWhile (\<lambda>b. b = 0) xs"
    unfolding alloc_def using takeWhile_zero_replicate [of xs] by simp
  then show ?thesis by simp
qed

lemma new_PublicKey_32:
  assumes "length buf = 32"
  shows "new_PublicKey buf = Inr (PublicKey buf)"
proof -
  have "length (dropWhile (\<lambda>b. b = 0) buf) \<le> 32"
    using length_dropWhile_le [of "\<lambda>b. b = 0" buf] assms by simp
  then show ?thesis
    unfolding new_PublicKey_def Let_def
    using pad_dropWhile_zero [of buf] assms by simp
qed

section \<open>Properties of the hash\<close>

lemma utf8_ascii_Cons:
  assumes "u < 0x80"
  shows "utf8 (u # s) = ucast u # utf8 s"
proof -
  from assms have no: "\<not> is_high_surrogate u" "\<not> is_low_surrogate u"
    by (simp_all add: is_high_surrogate_def is_low_surrogate_def word_less_nat_alt word_le_nat_alt)
  from assms have "(ucast u :: 32 word) < 0x80"
    by (simp add: word_less_nat_alt unsigned_ucast_eq take_bit_nat_eq_self)
  then have one: "utf8_code_point (ucast u) = [ucast u]"
    by (simp add: utf8_code_point_def ucast_up_ucast is_up)
  show ?thesis
    using no one by (cases s) simp_all
qed

lemma utf8_ascii_append:
  assumes "\<forall>u \<in> set p. u < 0x80"
  shows "utf8 (p @ s) = map ucast p @ utf8 s"
  using assms by (induction p) (simp_all add: utf8_ascii_Cons)

lemma HASH_PREFIX_units:
  "HASH_PREFIX = [83, 80, 76, 32, 78, 97, 109, 101, 32, 83, 101, 114, 118, 105, 99, 101]"
  by (simp add: HASH_PREFIX_def ascii_def)

lemma length_sha256_round:
  "length (sha256_round s kw) = length s"
  by (induction s kw rule: sha256_round.induct) (simp_all add: Let_def)

lemma length_foldl_sha256_round:
  "length (foldl sha256_round s kws) = length s"
  by (induction kws arbitrary: s) (simp_all add: length_sha256_round)

lemma length_sha256_compress:
  "length (sha256_compress h block) = length h"
  by (simp add: sha256_compress_def Let_def length_foldl_sha256_round)

lemma length_foldl_sha256_compress:
  "length (foldl sha256_compress h bs) = length h"
  by (induction bs arbitrary: h) (simp_all add: length_sha256_compress)

lemma length_concat_u32_bytes:
  "length (concat (map u32_bytes ws)) = 4 * length ws"
  by (induction ws) (simp_all add: u32_bytes_def)

lemma length_sha256_H0: "length sha256_H0 = 8"
  by (simp add: sha256_H0_def first_primes_def)

lemma length_sha256: "length (sha256 m) = 32"
  by (simp add: sha256_def length_concat_u32_bytes length_foldl_sha256_compress length_sha256_H0)

text \<open>
  \<open>root k x b 0\<close> is the integer \<open>k\<close>-th root of \<open>x\<close> when \<open>b\<close> bits are enough for it.
\<close>

lemma root_bounds:
  assumes "0 < k" "0 \<le> r" "r ^ k \<le> x" "x < (r + 2 ^ b) ^ k"
  shows "0 \<le> root k x b r \<and> root k x b r ^ k \<le> x \<and> x < (root k x b r + 1) ^ k"
  using assms(2-)
proof (induction b arbitrary: r)
  case 0
  then show ?case by simp
next
  case (Suc b)
  show ?case
  proof (cases "(r + 2 ^ b) ^ k \<le> x")
    case True
    have "r + 2 ^ b + 2 ^ b = r + 2 ^ Suc b" by simp
    with Suc.prems True Suc.IH [of "r + 2 ^ b"] show ?thesis by simp
  next
    case False
    with Suc.prems Suc.IH [of r] show ?thesis by simp
  qed
qed

lemma root_unique:
  fixes a c :: int
  assumes "0 \<le> a" "0 \<le> c" "a ^ k \<le> x" "x < (a + 1) ^ k" "c ^ k \<le> x" "x < (c + 1) ^ k"
  shows "a = c"
proof (rule ccontr)
  assume "a \<noteq> c"
  then consider "a + 1 \<le> c" | "c + 1 \<le> a" by fastforce
  then show False
  proof cases
    case 1
    with assms(1) have "(a + 1) ^ k \<le> c ^ k" by (intro power_mono) simp_all
    with assms show False by simp
  next
    case 2
    with assms(2) have "(c + 1) ^ k \<le> a ^ k" by (intro power_mono) simp_all
    with assms show False by simp
  qed
qed

lemma root_eqI:
  assumes "0 < k" "0 \<le> v" "v ^ k \<le> x" "x < (v + 1) ^ k" "x < (2 ^ b) ^ k"
  shows "root k x b 0 = v"
proof -
  from assms(2,3) have "0 \<le> x"
    by (meson order_trans zero_le_power)
  with assms(1,5) have "0 \<le> root k x b 0 \<and> root k x b 0 ^ k \<le> x \<and> x < (root k x b 0 + 1) ^ k"
    by (intro root_bounds) (simp_all add: zero_power)
  with assms(2-4) show ?thesis
    by (intro root_unique [of _ v k x]) simp_all
qed

text \<open>The roots behind the constants, each checked by its power and the next one.\<close>

lemma roots:
  "root 3 (2 * 2 ^ 96) 36 0 = 5411319704"
  "root 3 (3 * 2 ^ 96) 36 0 = 6194414737"
  "root 3 (5 * 2 ^ 96) 36 0 = 7344290767"
  "root 3 (7 * 2 ^ 96) 36 0 = 8215976869"
  "root 3 (11 * 2 ^ 96) 36 0 = 9551921755"
  "root 3 (13 * 2 ^ 96) 36 0 = 10098905585"
  "root 3 (17 * 2 ^ 96) 36 0 = 11043570340"
  "root 3 (19 * 2 ^ 96) 36 0 = 11460697813"
  "root 3 (23 * 2 ^ 96) 36 0 = 12214315672"
  "root 3 (29 * 2 ^ 96) 36 0 = 13195500289"
  "root 3 (31 * 2 ^ 96) 36 0 = 13492127166"
  "root 3 (37 * 2 ^ 96) 36 0 = 14311783875"
  "root 3 (41 * 2 ^ 96) 36 0 = 14809980276"
  "root 3 (43 * 2 ^ 96) 36 0 = 15046980094"
  "root 3 (47 * 2 ^ 96) 36 0 = 15499789991"
  "root 3 (53 * 2 ^ 96) 36 0 = 16133124468"
  "root 3 (59 * 2 ^ 96) 36 0 = 16720292289"
  "root 3 (61 * 2 ^ 96) 36 0 = 16907126662"
  "root 3 (67 * 2 ^ 96) 36 0 = 17444216262"
  "root 3 (71 * 2 ^ 96) 36 0 = 17784676812"
  "root 3 (73 * 2 ^ 96) 36 0 = 17950125167"
  "root 3 (79 * 2 ^ 96) 36 0 = 18429019306"
  "root 3 (83 * 2 ^ 96) 36 0 = 18734950876"
  "root 3 (89 * 2 ^ 96) 36 0 = 19175934170"
  "root 3 (97 * 2 ^ 96) 36 0 = 19734090066"
  "root 3 (101 * 2 ^ 96) 36 0 = 20001703533"
  "root 3 (103 * 2 ^ 96) 36 0 = 20132865992"
  "root 3 (107 * 2 ^ 96) 36 0 = 20390182855"
  "root 3 (109 * 2 ^ 96) 36 0 = 20516441075"
  "root 3 (113 * 2 ^ 96) 36 0 = 20764397895"
  "root 3 (127 * 2 ^ 96) 36 0 = 21588763473"
  "root 3 (131 * 2 ^ 96) 36 0 = 21813078375"
  "root 3 (137 * 2 ^ 96) 36 0 = 22141143685"
  "root 3 (139 * 2 ^ 96) 36 0 = 22248366392"
  "root 3 (149 * 2 ^ 96) 36 0 = 22769593852"
  "root 3 (151 * 2 ^ 96) 36 0 = 22871018771"
  "root 3 (157 * 2 ^ 96) 36 0 = 23170020180"
  "root 3 (163 * 2 ^ 96) 36 0 = 23461497531"
  "root 3 (167 * 2 ^ 96) 36 0 = 23651862830"
  "root 3 (173 * 2 ^ 96) 36 0 = 23931792517"
  "root 3 (179 * 2 ^ 96) 36 0 = 24205322401"
  "root 3 (181 * 2 ^ 96) 36 0 = 24295138891"
  "root 3 (191 * 2 ^ 96) 36 0 = 24734567280"
  "root 3 (193 * 2 ^ 96) 36 0 = 24820601251"
  "root 3 (197 * 2 ^ 96) 36 0 = 24990902297"
  "root 3 (199 * 2 ^ 96) 36 0 = 25075189284"
  "root 3 (211 * 2 ^ 96) 36 0 = 25569408389"
  "root 3 (223 * 2 ^ 96) 36 0 = 26045227120"
  "root 3 (227 * 2 ^ 96) 36 0 = 26200031510"
  "root 3 (229 * 2 ^ 96) 36 0 = 26276752392"
  "root 3 (233 * 2 ^ 96) 36 0 = 26428864332"
  "root 3 (239 * 2 ^ 96) 36 0 = 26653801653"
  "root 3 (241 * 2 ^ 96) 36 0 = 26727943347"
  "root 3 (251 * 2 ^ 96) 36 0 = 27092625994"
  "root 3 (257 * 2 ^ 96) 36 0 = 27306805839"
  "root 3 (263 * 2 ^ 96) 36 0 = 27517677555"
  "root 3 (269 * 2 ^ 96) 36 0 = 27725365998"
  "root 3 (271 * 2 ^ 96) 36 0 = 27793908591"
  "root 3 (277 * 2 ^ 96) 36 0 = 27997534228"
  "root 3 (281 * 2 ^ 96) 36 0 = 28131656200"
  "root 3 (283 * 2 ^ 96) 36 0 = 28198240250"
  "root 3 (293 * 2 ^ 96) 36 0 = 28526537963"
  "root 3 (307 * 2 ^ 96) 36 0 = 28973835255"
  "root 3 (311 * 2 ^ 96) 36 0 = 29099129074"
  "root 2 (2 * 2 ^ 64) 36 0 = 6074000999"
  "root 2 (3 * 2 ^ 64) 36 0 = 7439101573"
  "root 2 (5 * 2 ^ 64) 36 0 = 9603838834"
  "root 2 (7 * 2 ^ 64) 36 0 = 11363415354"
  "root 2 (11 * 2 ^ 64) 36 0 = 14244795007"
  "root 2 (13 * 2 ^ 64) 36 0 = 15485724812"
  "root 2 (17 * 2 ^ 64) 36 0 = 17708603819"
  "root 2 (19 * 2 ^ 64) 36 0 = 18721328409"
  by (rule root_eqI; simp)+


lemma sha256_K_values [code]:
  "sha256_K =
     [1116352408, 1899447441, 3049323471, 3921009573, 961987163, 1508970993,
      2453635748, 2870763221, 3624381080, 310598401, 607225278, 1426881987,
      1925078388, 2162078206, 2614888103, 3248222580, 3835390401, 4022224774,
      264347078, 604807628, 770255983, 1249150122, 1555081692, 1996064986,
      2554220882, 2821834349, 2952996808, 3210313671, 3336571891, 3584528711,
      113926993, 338241895, 666307205, 773529912, 1294757372, 1396182291, 1695183700,
      1986661051, 2177026350, 2456956037, 2730485921, 2820302411, 3259730800,
      3345764771, 3516065817, 3600352804, 4094571909, 275423344, 430227734,
      506948616, 659060556, 883997877, 958139571, 1322822218, 1537002063, 1747873779,
      1955562222, 2024104815, 2227730452, 2361852424, 2428436474, 2756734187,
      3204031479, 3329325298]"
  by (simp add: sha256_K_def first_primes_def roots [simplified])

lemma sha256_H0_values [code]:
  "sha256_H0 = [1779033703, 3144134277, 1013904242, 2773480762, 1359893119, 2600822924,
      528734635, 1541459225]"
  by (simp add: sha256_H0_def first_primes_def roots [simplified])


text \<open>The digest of \<open>"abc"\<close>, the one-block example of the standard.\<close>

lemma sha256_abc:
  "sha256 [0x61, 0x62, 0x63] =
     [0xba, 0x78, 0x16, 0xbf, 0x8f, 0x01, 0xcf, 0xea, 0x41, 0x41, 0x40, 0xde, 0x5d, 0xae, 0x22, 0x23,
      0xb0, 0x03, 0x61, 0xa3, 0x96, 0x17, 0x7a, 0x9c, 0xb4, 0x10, 0xff, 0x61, 0xf2, 0x00, 0x15, 0xad]"
  by code_simp

text \<open>The digests of the labels \<open>"A"\<close> and \<open>"a"\<close>.\<close>

lemma getHashedName_A:
  "getHashedName (ascii ''A'') =
     [0x74, 0x66, 0xe2, 0x7b, 0x93, 0xd8, 0x1a, 0x62, 0xee, 0xd8, 0x4a, 0xc8, 0xb3, 0xf3, 0x7e, 0xf9,
      0x02, 0x9b, 0xa0, 0xce, 0xc1, 0xdc, 0xd4, 0x7b, 0x8f, 0x19, 0x3b, 0x26, 0x1e, 0x72, 0x6d, 0x46]"
  by code_simp

lemma getHashedName_a:
  "getHashedName (ascii ''a'') =
     [0xa6, 0x38, 0x77, 0x29, 0x29, 0x5c, 0x4e, 0x90, 0x73, 0x0c, 0x94, 0x81, 0x59, 0xb3, 0x47, 0x6b,
      0x1a, 0xfb, 0xa0, 0xaf, 0xde, 0x30, 0x5b, 0xb6, 0x03, 0x07, 0x5e, 0xba, 0x71, 0x5f, 0x69, 0x39]"
  by code_simp


text \<open>
  C3. \<open>getHashedName\<close> is a total function of the label: it returns the SHA-256 digest, 32
  bytes, of the UTF-8 encoding of \<open>"SPL Name Service" + name\<close>, which is the 16 bytes of the
  prefix followed by the UTF-8 encoding of the label. The label is encoded as it is, with no
  case folding: the labels \<open>"A"\<close> and \<open>"a"\<close> have different digests.
\<close>

theorem getHashedName_digest:
  "getHashedName label = sha256 (utf8 (HASH_PREFIX @ label))
   \<and> utf8 (HASH_PREFIX @ label)
       = [0x53, 0x50, 0x4C, 0x20, 0x4E, 0x61, 0x6D, 0x65,
          0x20, 0x53, 0x65, 0x72, 0x76, 0x69, 0x63, 0x65] @ utf8 label
   \<and> length (getHashedName label) = 32
   \<and> getHashedName (ascii ''A'') \<noteq> getHashedName (ascii ''a'')"
proof -
  have split: "utf8 (HASH_PREFIX @ s)
       = [0x53, 0x50, 0x4C, 0x20, 0x4E, 0x61, 0x6D, 0x65,
          0x20, 0x53, 0x65, 0x72, 0x76, 0x69, 0x63, 0x65] @ utf8 s" for s
    by (subst utf8_ascii_append) (simp_all add: HASH_PREFIX_units)
  have "getHashedName (ascii ''A'') \<noteq> getHashedName (ascii ''a'')"
    unfolding getHashedName_A getHashedName_a by simp
  then show ?thesis
    by (simp add: getHashedName_def Let_def length_sha256 split)
qed

section \<open>Properties of the address derivation\<close>

lemma NAME_PROGRAM_ID_base58:
  "new_PublicKey_base58 NAME_PROGRAM_ID_BASE58 = Inr NAME_PROGRAM_ID"
  by code_simp

lemma resolveNameAccountKey_seeds:
  "resolveNameAccountKey fpa digest klass' parent =
     (case fpa [digest,
                case klass' of None \<Rightarrow> alloc 32 | Some c \<Rightarrow> toBuffer c,
                case parent of None \<Rightarrow> alloc 32 | Some p \<Rightarrow> toBuffer p] NAME_PROGRAM_ID of
        None \<Rightarrow> Inl NoProgramAddress
      | Some found \<Rightarrow> Inr (fst found))"
  by (simp add: resolveNameAccountKey_def split: option.splits prod.splits)

lemma resolveNameAccountKey_error:
  "resolveNameAccountKey fpa digest klass' parent = Inl e \<Longrightarrow> e = NoProgramAddress"
  by (simp add: resolveNameAccountKey_seeds split: option.splits)

lemma resolveNameAccountKey_total:
  assumes "\<forall>seeds. fpa seeds NAME_PROGRAM_ID \<noteq> None"
  shows "\<exists>k. resolveNameAccountKey fpa digest klass' parent = Inr k"
  using assms by (auto simp: resolveNameAccountKey_seeds split: option.splits)

text \<open>
  C4. \<open>resolveNameAccountKey\<close> passes the seeds \<open>[digest, class, parent]\<close> and
  \<open>NAME_PROGRAM_ID\<close> to \<open>findProgramAddress\<close>, with 32 zero bytes for a class or a parent
  that is absent, so that leaving both out is the same as giving the key of 32 zero bytes
  for both.
\<close>

theorem resolveNameAccountKey_seed_list:
  "resolveNameAccountKey fpa digest klass' parent =
     (case fpa [digest,
                case klass' of None \<Rightarrow> replicate 32 0 | Some c \<Rightarrow> toBuffer c,
                case parent of None \<Rightarrow> replicate 32 0 | Some p \<Rightarrow> toBuffer p]
             NAME_PROGRAM_ID of
        None \<Rightarrow> Inl NoProgramAddress
      | Some found \<Rightarrow> Inr (fst found))
   \<and> new_PublicKey (alloc 32) = Inr (PublicKey (replicate 32 0))
   \<and> resolveNameAccountKey fpa digest None None =
       resolveNameAccountKey fpa digest
         (Some (PublicKey (replicate 32 0))) (Some (PublicKey (replicate 32 0)))"
proof -
  have "new_PublicKey (alloc 32) = Inr (PublicKey (alloc 32))"
    by (rule new_PublicKey_32) (simp add: alloc_def)
  then show ?thesis
    by (cases klass'; cases parent) (simp_all add: resolveNameAccountKey_seeds alloc_def)
qed

section \<open>Properties of the path resolver\<close>

declare resolve_UTF8_ONS_loop.simps [simp del]
declare resolve_UTF8_ONS_loop_part000.simps [simp del]

lemma loop_done:
  "i < 0 \<Longrightarrow> resolve_UTF8_ONS_loop fpa path i p ks = Inr ks"
  by (subst resolve_UTF8_ONS_loop.simps) simp

lemma loop_step:
  "0 \<le> i \<Longrightarrow> resolve_UTF8_ONS_loop fpa path i p ks =
     (case resolveNameAccountKey fpa (getHashedName (path ! nat i)) None p of
        Inl e \<Rightarrow> Inl e
      | Inr k \<Rightarrow> resolve_UTF8_ONS_loop fpa path (i - 1) (Some k) (k # ks))"
  by (subst resolve_UTF8_ONS_loop.simps) (simp add: resolveNameAccountKeyByName_def)

lemma loop_part000_eq:
  "resolve_UTF8_ONS_loop_part000 fpa path i p ks = resolve_UTF8_ONS_loop fpa path i p ks"
proof (induction fpa path i p ks rule: resolve_UTF8_ONS_loop.induct)
  case (1 fpa path i p ks)
  show ?case
  proof (cases "0 \<le> i")
    case True
    have same: "resolveNameAccountKeyByName_part000 fpa (path ! nat i) None p =
                resolveNameAccountKeyByName fpa (path ! nat i) p None"
      by (simp add: resolveNameAccountKeyByName_part000_def resolveNameAccountKeyByName_def)
    show ?thesis
    proof (cases "resolveNameAccountKeyByName fpa (path ! nat i) p None")
      case (Inl e)
      with True same show ?thesis
        by (subst resolve_UTF8_ONS_loop_part000.simps, subst resolve_UTF8_ONS_loop.simps) simp
    next
      case (Inr k)
      with True same "1.IH" [OF True refl Inr] show ?thesis
        by (subst resolve_UTF8_ONS_loop_part000.simps, subst resolve_UTF8_ONS_loop.simps) simp
    qed
  next
    case False
    then show ?thesis
      by (subst resolve_UTF8_ONS_loop_part000.simps, subst resolve_UTF8_ONS_loop.simps) simp
  qed
qed

lemma resolve_part000_eq:
  "resolve_UTF8_ONS_part000 fpa path up = resolve_UTF8_ONS fpa path up"
  by (simp add: resolve_UTF8_ONS_part000_def resolve_UTF8_ONS_def loop_part000_eq)

text \<open>The keys found so far are only extended at the front.\<close>

lemma loop_keys:
  "nat (i + 1) = n \<Longrightarrow>
   resolve_UTF8_ONS_loop fpa path i p ks =
     (case resolve_UTF8_ONS_loop fpa path i p [] of
        Inl e \<Rightarrow> Inl e | Inr new \<Rightarrow> Inr (new @ ks))"
proof (induction n arbitrary: i p ks)
  case 0
  then have "i < 0" by simp
  then show ?case by (simp add: loop_done)
next
  case (Suc n)
  then have i: "0 \<le> i" and n: "nat (i - 1 + 1) = n" by simp_all
  show ?case
  proof (cases "resolveNameAccountKey fpa (getHashedName (path ! nat i)) None p")
    case (Inl e)
    with i show ?thesis by (simp add: loop_step)
  next
    case (Inr k)
    have a: "resolve_UTF8_ONS_loop fpa path (i - 1) (Some k) (k # ks) =
       (case resolve_UTF8_ONS_loop fpa path (i - 1) (Some k) [] of
          Inl e \<Rightarrow> Inl e | Inr new \<Rightarrow> Inr (new @ k # ks))"
      by (rule Suc.IH [OF n])
    have b: "resolve_UTF8_ONS_loop fpa path (i - 1) (Some k) [k] =
       (case resolve_UTF8_ONS_loop fpa path (i - 1) (Some k) [] of
          Inl e \<Rightarrow> Inl e | Inr new \<Rightarrow> Inr (new @ [k]))"
      by (rule Suc.IH [OF n])
    from i Inr show ?thesis
      by (simp add: loop_step a b split: sum.splits)
  qed
qed

text \<open>The loop reads the path only at the indices it still has to visit.\<close>

lemma loop_prefix:
  "nat (i + 1) = n \<Longrightarrow> i < int (length pre) \<Longrightarrow>
   resolve_UTF8_ONS_loop fpa (pre @ suf) i p ks = resolve_UTF8_ONS_loop fpa pre i p ks"
proof (induction n arbitrary: i p ks)
  case 0
  then have "i < 0" by simp
  then show ?case by (simp add: loop_done)
next
  case (Suc n)
  then have i: "0 \<le> i" and n: "nat (i - 1 + 1) = n" and l: "i - 1 < int (length pre)"
    by simp_all
  from Suc.prems i have "nat i < length pre"
    by (simp add: nat_less_iff)
  then have nth: "(pre @ suf) ! nat i = pre ! nat i"
    by (simp add: nth_append)
  show ?case
    using i by (simp add: loop_step nth Suc.IH [OF n l] split: sum.splits)
qed

text \<open>Visiting the indices of a suffix is the loop on the suffix alone.\<close>

lemma loop_suffix:
  "nat (j + 1) = n \<Longrightarrow> - 1 \<le> j \<Longrightarrow> j < int (length suf) \<Longrightarrow>
   resolve_UTF8_ONS_loop fpa (pre @ suf) (int (length pre) + j) p ks =
     (case resolve_UTF8_ONS_loop fpa suf j p ks of
        Inl e \<Rightarrow> Inl e
      | Inr ks' \<Rightarrow>
          resolve_UTF8_ONS_loop fpa (pre @ suf) (int (length pre) - 1)
            (if j < 0 then p else Some (hd ks')) ks')"
proof (induction n arbitrary: j p ks)
  case 0
  then have "j = - 1" by simp
  then show ?case by (simp add: loop_done)
next
  case (Suc n)
  then have j: "0 \<le> j" and n: "nat (j - 1 + 1) = n" and l: "j - 1 < int (length suf)"
    and m: "- 1 \<le> j - 1"
    by simp_all
  from j have idx: "nat (int (length pre) + j) = length pre + nat j"
    by simp
  have nth: "(pre @ suf) ! nat (int (length pre) + j) = suf ! nat j"
    by (simp add: idx)
  have step: "int (length pre) + j - 1 = int (length pre) + (j - 1)"
    by simp
  show ?case
  proof (cases "resolveNameAccountKey fpa (getHashedName (suf ! nat j)) None p")
    case (Inl e)
    with j show ?thesis by (simp add: loop_step nth)
  next
    case (Inr k)
    note IH = Suc.IH [OF n m l, of "Some k" "k # ks"]
    show ?thesis
    proof (cases "j - 1 < 0")
      case True
      with j have j0: "j = 0" by simp
      from Inr nth show ?thesis
        unfolding j0 by (simp add: loop_step loop_done)
    next
      case False
      have "resolve_UTF8_ONS_loop fpa suf (j - 1) (Some k) (k # ks) =
        (case resolve_UTF8_ONS_loop fpa suf (j - 1) (Some k) [] of
           Inl e \<Rightarrow> Inl e | Inr new \<Rightarrow> Inr (new @ k # ks))"
        using loop_keys [OF refl] .
      with j Inr False IH show ?thesis
        by (simp add: loop_step [of j] loop_step [of "int (length pre) + j"] nth step
                 split: sum.splits)
    qed
  qed
qed

lemma resolve_single:
  "resolve_UTF8_ONS fpa [label] up =
     (case resolveNameAccountKey fpa (getHashedName label) None up of
        Inl e \<Rightarrow> Inl e | Inr k \<Rightarrow> Inr [k])"
  by (simp add: resolve_UTF8_ONS_def loop_step loop_done split: sum.splits)

lemma resolve_append:
  assumes "pre \<noteq> []" "suf \<noteq> []"
  shows "resolve_UTF8_ONS fpa (pre @ suf) up =
     (case resolve_UTF8_ONS fpa suf up of
        Inl e \<Rightarrow> Inl e
      | Inr ks \<Rightarrow>
          (case resolve_UTF8_ONS fpa pre (Some (hd ks)) of
             Inl e \<Rightarrow> Inl e | Inr new \<Rightarrow> Inr (new @ ks)))"
proof -
  let ?j = "int (length suf) - 1"
  from assms have j: "0 \<le> ?j" "?j < int (length suf)"
    by (simp_all add: Suc_leI)
  have whole: "int (length (pre @ suf)) - 1 = int (length pre) + ?j"
    by simp
  have "resolve_UTF8_ONS fpa (pre @ suf) up =
        resolve_UTF8_ONS_loop fpa (pre @ suf) (int (length pre) + ?j) up []"
    unfolding resolve_UTF8_ONS_def whole using assms by simp
  also have "\<dots> = (case resolve_UTF8_ONS_loop fpa suf ?j up [] of
        Inl e \<Rightarrow> Inl e
      | Inr ks \<Rightarrow> resolve_UTF8_ONS_loop fpa (pre @ suf) (int (length pre) - 1) (Some (hd ks)) ks)"
    using loop_suffix [OF refl _ j(2), of fpa pre up "[]"] j(1) by (simp split: sum.splits)
  also have "\<dots> = (case resolve_UTF8_ONS_loop fpa suf ?j up [] of
        Inl e \<Rightarrow> Inl e
      | Inr ks \<Rightarrow> resolve_UTF8_ONS_loop fpa pre (int (length pre) - 1) (Some (hd ks)) ks)"
    by (simp add: loop_prefix [OF refl] split: sum.splits)
  also have "\<dots> = (case resolve_UTF8_ONS_loop fpa suf ?j up [] of
        Inl e \<Rightarrow> Inl e
      | Inr ks \<Rightarrow>
          (case resolve_UTF8_ONS_loop fpa pre (int (length pre) - 1) (Some (hd ks)) [] of
             Inl e \<Rightarrow> Inl e | Inr new \<Rightarrow> Inr (new @ ks)))"
  proof (cases "resolve_UTF8_ONS_loop fpa suf ?j up []")
    case (Inl e)
    then show ?thesis by simp
  next
    case (Inr ks)
    show ?thesis
      unfolding Inr
      using loop_keys [OF refl, of fpa pre "int (length pre) - 1" "Some (hd ks)" ks] by simp
  qed
  finally have both: "resolve_UTF8_ONS fpa (pre @ suf) up =
      (case resolve_UTF8_ONS_loop fpa suf ?j up [] of
         Inl e \<Rightarrow> Inl e
       | Inr ks \<Rightarrow>
           (case resolve_UTF8_ONS_loop fpa pre (int (length pre) - 1) (Some (hd ks)) [] of
              Inl e \<Rightarrow> Inl e | Inr new \<Rightarrow> Inr (new @ ks)))" .
  have s: "resolve_UTF8_ONS fpa suf up = resolve_UTF8_ONS_loop fpa suf ?j up []"
    using assms by (simp add: resolve_UTF8_ONS_def)
  have p: "resolve_UTF8_ONS fpa pre q = resolve_UTF8_ONS_loop fpa pre (int (length pre) - 1) q []"
    for q
    using assms by (simp add: resolve_UTF8_ONS_def)
  show ?thesis
    unfolding s p by (rule both)
qed

lemma resolve_Cons:
  assumes "rest \<noteq> []"
  shows "resolve_UTF8_ONS fpa (label # rest) up =
     (case resolve_UTF8_ONS fpa rest up of
        Inl e \<Rightarrow> Inl e
      | Inr ks \<Rightarrow>
          (case resolveNameAccountKey fpa (getHashedName label) None (Some (hd ks)) of
             Inl e \<Rightarrow> Inl e | Inr k \<Rightarrow> Inr (k # ks)))"
  using resolve_append [of "[label]" rest fpa up] assms
  by (simp add: resolve_single split: sum.splits)

text \<open>
  C7. On a path of no labels \<open>resolve_UTF8_ONS\<close> fails with the empty-path error and returns
  no list, in both variants of the file.
\<close>

theorem resolve_UTF8_ONS_empty_path:
  "resolve_UTF8_ONS fpa [] up = Inl EmptyPath
   \<and> resolve_UTF8_ONS_part000 fpa [] up = Inl EmptyPath
   \<and> (\<forall>keys. resolve_UTF8_ONS fpa [] up \<noteq> Inr keys)
   \<and> (\<forall>keys. resolve_UTF8_ONS_part000 fpa [] up \<noteq> Inr keys)"
  by (simp add: resolve_UTF8_ONS_def resolve_UTF8_ONS_part000_def)

text \<open>
  C8. The two variants of \<open>resolveNameAccountKeyByName\<close> take the parent and the class in
  opposite orders, and each variant of \<open>resolve_UTF8_ONS\<close> calls its own with the chained
  key as parent and no class, so the two variants of \<open>resolve_UTF8_ONS\<close> return the same
  result on every path and \<open>unknownParent\<close>.
\<close>

theorem resolve_UTF8_ONS_variants_agree:
  "resolveNameAccountKeyByName fpa label parent klass' =
     resolveNameAccountKeyByName_part000 fpa label klass' parent
   \<and> resolveNameAccountKeyByName fpa label parentNameKey None =
       resolveNameAccountKey fpa (getHashedName label) None parentNameKey
   \<and> resolveNameAccountKeyByName_part000 fpa label None parentNameKey =
       resolveNameAccountKey fpa (getHashedName label) None parentNameKey
   \<and> resolve_UTF8_ONS_part000 fpa path up = resolve_UTF8_ONS fpa path up"
  by (simp add: resolveNameAccountKeyByName_def resolveNameAccountKeyByName_part000_def
      resolve_UTF8_ONS_part000_def resolve_UTF8_ONS_def loop_part000_eq)

lemma resolve_chain:
  assumes "path \<noteq> []" "resolve_UTF8_ONS fpa path up = Inr keys"
  shows "length keys = length path
    \<and> resolveNameAccountKey fpa (getHashedName (last path)) None up = Inr (last keys)
    \<and> (\<forall>i. Suc i < length path \<longrightarrow>
          resolveNameAccountKey fpa (getHashedName (path ! i)) None (Some (keys ! Suc i))
            = Inr (keys ! i))"
  using assms
proof (induction path arbitrary: keys)
  case Nil
  then show ?case by simp
next
  case (Cons label rest)
  show ?case
  proof (cases "rest = []")
    case True
    with Cons.prems show ?thesis
      by (auto simp: resolve_single split: sum.splits)
  next
    case False
    from Cons.prems(2) obtain ks k where
      ks: "resolve_UTF8_ONS fpa rest up = Inr ks"
      and k: "resolveNameAccountKey fpa (getHashedName label) None (Some (hd ks)) = Inr k"
      and keys: "keys = k # ks"
      by (auto simp: resolve_Cons [OF False] split: sum.splits)
    note IH = Cons.IH [OF False ks]
    from IH False have ne: "ks \<noteq> []"
      by auto
    then have hd: "hd ks = ks ! 0"
      by (simp add: hd_conv_nth)
    have "resolveNameAccountKey fpa (getHashedName ((label # rest) ! i)) None
            (Some ((k # ks) ! Suc i)) = Inr ((k # ks) ! i)"
      if "Suc i < length (label # rest)" for i
    proof (cases i)
      case 0
      with k hd show ?thesis by simp
    next
      case (Suc j)
      with that IH show ?thesis by simp
    qed
    with IH False ne show ?thesis
      unfolding keys by simp
  qed
qed

lemma resolve_total:
  assumes "path \<noteq> []" "\<forall>seeds. fpa seeds NAME_PROGRAM_ID \<noteq> None"
  shows "\<exists>keys. resolve_UTF8_ONS fpa path up = Inr keys"
  using assms(1)
proof (induction path)
  case Nil
  then show ?case by simp
next
  case (Cons label rest)
  show ?case
  proof (cases "rest = []")
    case True
    with resolveNameAccountKey_total [of fpa "getHashedName label" None up, OF assms(2)]
    show ?thesis by (auto simp: resolve_single)
  next
    case False
    from Cons.IH [OF False] obtain ks where ks: "resolve_UTF8_ONS fpa rest up = Inr ks" ..
    with resolveNameAccountKey_total [of fpa "getHashedName label" None "Some (hd ks)", OF assms(2)]
    show ?thesis by (auto simp: resolve_Cons [OF False])
  qed
qed

lemma resolve_error:
  assumes "path \<noteq> []" "resolve_UTF8_ONS fpa path up = Inl e"
  shows "e = NoProgramAddress"
  using assms
proof (induction path)
  case Nil
  then show ?case by simp
next
  case (Cons label rest)
  show ?case
  proof (cases "rest = []")
    case True
    with Cons.prems show ?thesis
      by (auto simp: resolve_single split: sum.splits dest: resolveNameAccountKey_error)
  next
    case False
    with Cons show ?thesis
      by (auto simp: resolve_Cons [OF False] split: sum.splits dest: resolveNameAccountKey_error)
  qed
qed

text \<open>
  A chain of successful derivations is the result: the converse of \<open>resolve_chain\<close>.
\<close>

lemma resolve_chain_conv:
  assumes "path \<noteq> []" "length keys = length path"
    and "resolveNameAccountKey fpa (getHashedName (last path)) None up = Inr (last keys)"
    and "\<forall>i. Suc i < length path \<longrightarrow>
          resolveNameAccountKey fpa (getHashedName (path ! i)) None (Some (keys ! Suc i))
            = Inr (keys ! i)"
  shows "resolve_UTF8_ONS fpa path up = Inr keys"
  using assms
proof (induction path arbitrary: keys)
  case Nil
  then show ?case by simp
next
  case (Cons label rest)
  show ?case
  proof (cases "rest = []")
    case True
    with Cons.prems(2) obtain k where keys: "keys = [k]"
      by (cases keys) simp_all
    with True Cons.prems(3) show ?thesis
      by (simp add: resolve_single)
  next
    case False
    from Cons.prems(2) obtain k ks where keys: "keys = k # ks" and len: "length ks = length rest"
      by (cases keys) simp_all
    from len False have ne: "ks \<noteq> []" by auto
    have last: "resolveNameAccountKey fpa (getHashedName (last rest)) None up = Inr (last ks)"
      using Cons.prems(3) False ne by (simp add: keys)
    have step: "resolveNameAccountKey fpa (getHashedName (rest ! i)) None (Some (ks ! Suc i))
        = Inr (ks ! i)" if "Suc i < length rest" for i
      using Cons.prems(4) [rule_format, of "Suc i"] that by (simp add: keys)
    have rest: "resolve_UTF8_ONS fpa rest up = Inr ks"
      using Cons.IH [OF False len last] step by blast
    have "resolveNameAccountKey fpa (getHashedName label) None (Some (hd ks)) = Inr k"
      using Cons.prems(4) [rule_format, of 0] False ne by (simp add: keys hd_conv_nth)
    with rest show ?thesis
      by (simp add: resolve_Cons [OF False] keys)
  qed
qed

lemma length_getHashedName: "length (getHashedName label) = 32"
  by (simp add: getHashedName_def Let_def length_sha256)

lemma resolveNameAccountKey_returns:
  assumes lib: "\<forall>seeds. length seeds = 3 \<and> (\<forall>s \<in> set seeds. length s \<le> 32) \<longrightarrow>
      (\<exists>k nonce. fpa seeds NAME_PROGRAM_ID = Some (k, nonce) \<and> length (toBuffer k) \<le> 32)"
    and parent: "\<forall>p. parent = Some p \<longrightarrow> length (toBuffer p) \<le> 32"
  shows "\<exists>k. resolveNameAccountKey fpa (getHashedName label) None parent = Inr k
           \<and> length (toBuffer k) \<le> 32"
proof -
  let ?seeds = "[getHashedName label, alloc 32,
                 case parent of None \<Rightarrow> alloc 32 | Some p \<Rightarrow> toBuffer p]"
  have "length ?seeds = 3 \<and> (\<forall>s \<in> set ?seeds. length s \<le> 32)"
    using parent by (simp add: length_getHashedName alloc_def split: option.splits)
  with lib obtain k nonce where "fpa ?seeds NAME_PROGRAM_ID = Some (k, nonce)"
    and "length (toBuffer k) \<le> 32"
    by blast
  then show ?thesis
    by (simp add: resolveNameAccountKey_seeds)
qed

lemma resolve_returns:
  assumes lib: "\<forall>seeds. length seeds = 3 \<and> (\<forall>s \<in> set seeds. length s \<le> 32) \<longrightarrow>
      (\<exists>k nonce. fpa seeds NAME_PROGRAM_ID = Some (k, nonce) \<and> length (toBuffer k) \<le> 32)"
    and up: "\<forall>p. up = Some p \<longrightarrow> length (toBuffer p) \<le> 32"
    and ne: "path \<noteq> []"
  shows "\<exists>keys. resolve_UTF8_ONS fpa path up = Inr keys
           \<and> (\<forall>k \<in> set keys. length (toBuffer k) \<le> 32)"
  using ne
proof (induction path)
  case Nil
  then show ?case by simp
next
  case (Cons label rest)
  show ?case
  proof (cases "rest = []")
    case True
    from resolveNameAccountKey_returns [where fpa = fpa and parent = up and label = label, OF lib up] True
    show ?thesis by (auto simp: resolve_single)
  next
    case False
    from Cons.IH [OF False] obtain ks where ks: "resolve_UTF8_ONS fpa rest up = Inr ks"
      and small: "\<forall>k \<in> set ks. length (toBuffer k) \<le> 32"
      by blast
    from resolve_chain [OF False ks] False have "ks \<noteq> []" by auto
    with small have "\<forall>p. Some (hd ks) = Some p \<longrightarrow> length (toBuffer p) \<le> 32"
      by simp
    from resolveNameAccountKey_returns
        [where fpa = fpa and parent = "Some (hd ks)" and label = label, OF lib this] ks small
    show ?thesis by (auto simp: resolve_Cons [OF False])
  qed
qed

text \<open>
  C1. For a path that is not empty, \<open>resolve_UTF8_ONS\<close> (in both variants of the file)
  returns a list exactly when the derivations along the path succeed, and then it is the
  list of their keys, in the order of the labels: the key of the last label is derived from
  the hash of the label with no class and the parent \<open>unknownParent\<close>, which is the key of
  32 zero bytes when it is absent, and the key of every earlier label is derived from the
  hash of that label with no class and, as parent, the key of the label after it. The list
  has the length of the path. Any list of keys that is such a chain is the result; when
  \<open>findProgramAddress\<close> finds an address for every three seeds of at most 32 bytes, a result
  is returned for every path; and the only failure is a derivation that rejects.
\<close>

theorem resolve_UTF8_ONS_root_to_leaf:
  assumes "path \<noteq> []"
  shows "\<forall>r \<in> {resolve_UTF8_ONS fpa path up, resolve_UTF8_ONS_part000 fpa path up}.
     ((\<forall>seeds. fpa seeds NAME_PROGRAM_ID \<noteq> None) \<longrightarrow> (\<exists>keys. r = Inr keys))
     \<and> ((\<forall>seeds. length seeds = 3 \<and> (\<forall>s \<in> set seeds. length s \<le> 32) \<longrightarrow>
            (\<exists>k nonce. fpa seeds NAME_PROGRAM_ID = Some (k, nonce)
               \<and> length (toBuffer k) \<le> 32))
          \<and> (\<forall>p. up = Some p \<longrightarrow> length (toBuffer p) \<le> 32)
          \<longrightarrow> (\<exists>keys. r = Inr keys))
     \<and> (\<forall>keys.
           length keys = length path
         \<and> resolveNameAccountKey fpa (getHashedName (last path)) None up = Inr (last keys)
         \<and> (\<forall>i. Suc i < length path \<longrightarrow>
               resolveNameAccountKey fpa (getHashedName (path ! i)) None (Some (keys ! Suc i))
                 = Inr (keys ! i))
         \<longrightarrow> r = Inr keys)
     \<and> (\<forall>e. r = Inl e \<longrightarrow> e = NoProgramAddress)
     \<and> (\<forall>keys. r = Inr keys \<longrightarrow>
           length keys = length path
         \<and> resolveNameAccountKey fpa (getHashedName (last path)) None up = Inr (last keys)
         \<and> (up = None \<longrightarrow>
              resolveNameAccountKey fpa (getHashedName (last path)) None
                (Some (PublicKey (alloc 32))) = Inr (last keys))
         \<and> (\<forall>i. Suc i < length path \<longrightarrow>
               resolveNameAccountKey fpa (getHashedName (path ! i)) None (Some (keys ! Suc i))
                 = Inr (keys ! i)))"
proof -
  let ?r = "resolve_UTF8_ONS fpa path up"
  have zero: "resolveNameAccountKey fpa d None (Some (PublicKey (alloc 32))) =
              resolveNameAccountKey fpa d None None" for d
    by (simp add: resolveNameAccountKey_seeds)
  have total: "(\<forall>seeds. fpa seeds NAME_PROGRAM_ID \<noteq> None) \<longrightarrow> (\<exists>keys. ?r = Inr keys)"
    using resolve_total [OF assms, of fpa up] by blast
  have returns: "(\<forall>seeds. length seeds = 3 \<and> (\<forall>s \<in> set seeds. length s \<le> 32) \<longrightarrow>
            (\<exists>k nonce. fpa seeds NAME_PROGRAM_ID = Some (k, nonce)
               \<and> length (toBuffer k) \<le> 32))
          \<and> (\<forall>p. up = Some p \<longrightarrow> length (toBuffer p) \<le> 32)
          \<longrightarrow> (\<exists>keys. ?r = Inr keys)"
  proof (intro impI, elim conjE)
    assume lib: "\<forall>seeds. length seeds = 3 \<and> (\<forall>s \<in> set seeds. length s \<le> 32) \<longrightarrow>
            (\<exists>k nonce. fpa seeds NAME_PROGRAM_ID = Some (k, nonce)
               \<and> length (toBuffer k) \<le> 32)"
      and up: "\<forall>p. up = Some p \<longrightarrow> length (toBuffer p) \<le> 32"
    from resolve_returns [where fpa = fpa and up = up and path = path, OF lib up assms]
    show "\<exists>keys. ?r = Inr keys" by blast
  qed
  have conv: "\<forall>keys.
           length keys = length path
         \<and> resolveNameAccountKey fpa (getHashedName (last path)) None up = Inr (last keys)
         \<and> (\<forall>i. Suc i < length path \<longrightarrow>
               resolveNameAccountKey fpa (getHashedName (path ! i)) None (Some (keys ! Suc i))
                 = Inr (keys ! i))
         \<longrightarrow> ?r = Inr keys"
    using resolve_chain_conv [OF assms, of _ fpa up] by blast
  have err: "\<forall>e. ?r = Inl e \<longrightarrow> e = NoProgramAddress"
    using resolve_error [OF assms, of fpa up] by blast
  have chain: "\<forall>keys. ?r = Inr keys \<longrightarrow>
           length keys = length path
         \<and> resolveNameAccountKey fpa (getHashedName (last path)) None up = Inr (last keys)
         \<and> (up = None \<longrightarrow>
              resolveNameAccountKey fpa (getHashedName (last path)) None
                (Some (PublicKey (alloc 32))) = Inr (last keys))
         \<and> (\<forall>i. Suc i < length path \<longrightarrow>
               resolveNameAccountKey fpa (getHashedName (path ! i)) None (Some (keys ! Suc i))
                 = Inr (keys ! i))"
    using resolve_chain [OF assms, of fpa up] by (auto simp: zero)
  show ?thesis
    unfolding resolve_part000_eq
  proof (rule ballI)
    fix r
    assume "r \<in> {?r, ?r}"
    then have r: "r = ?r" by simp
    show "((\<forall>seeds. fpa seeds NAME_PROGRAM_ID \<noteq> None) \<longrightarrow> (\<exists>keys. r = Inr keys))
     \<and> ((\<forall>seeds. length seeds = 3 \<and> (\<forall>s \<in> set seeds. length s \<le> 32) \<longrightarrow>
            (\<exists>k nonce. fpa seeds NAME_PROGRAM_ID = Some (k, nonce)
               \<and> length (toBuffer k) \<le> 32))
          \<and> (\<forall>p. up = Some p \<longrightarrow> length (toBuffer p) \<le> 32)
          \<longrightarrow> (\<exists>keys. r = Inr keys))
     \<and> (\<forall>keys.
           length keys = length path
         \<and> resolveNameAccountKey fpa (getHashedName (last path)) None up = Inr (last keys)
         \<and> (\<forall>i. Suc i < length path \<longrightarrow>
               resolveNameAccountKey fpa (getHashedName (path ! i)) None (Some (keys ! Suc i))
                 = Inr (keys ! i))
         \<longrightarrow> r = Inr keys)
     \<and> (\<forall>e. r = Inl e \<longrightarrow> e = NoProgramAddress)
     \<and> (\<forall>keys. r = Inr keys \<longrightarrow>
           length keys = length path
         \<and> resolveNameAccountKey fpa (getHashedName (last path)) None up = Inr (last keys)
         \<and> (up = None \<longrightarrow>
              resolveNameAccountKey fpa (getHashedName (last path)) None
                (Some (PublicKey (alloc 32))) = Inr (last keys))
         \<and> (\<forall>i. Suc i < length path \<longrightarrow>
               resolveNameAccountKey fpa (getHashedName (path ! i)) None (Some (keys ! Suc i))
                 = Inr (keys ! i)))"
      unfolding r by (intro conjI) (rule total returns conv err chain)+
  qed
qed

text \<open>
  An instance, with an address function that rejects a seed of more than 32 bytes, as the
  library does, and otherwise adds one to every byte of the parent seed. The chain of the
  two derivations is checked first, and the theorem gives the result of both variants.
\<close>

theorem resolve_UTF8_ONS_root_to_leaf_witness:
  "[ascii ''a'', ascii ''b''] \<noteq> []
   \<and> (\<lambda>seeds programId. if list_ex (\<lambda>s. 32 < length s) seeds then None
         else Some (PublicKey (map (\<lambda>b. b + 1) (last seeds)), 255 :: byte))
       [replicate 33 0] NAME_PROGRAM_ID = None
   \<and> resolveNameAccountKey
       (\<lambda>seeds programId. if list_ex (\<lambda>s. 32 < length s) seeds then None
         else Some (PublicKey (map (\<lambda>b. b + 1) (last seeds)), 255))
       (getHashedName (ascii ''b'')) None None = Inr (PublicKey (replicate 32 1))
   \<and> resolveNameAccountKey
       (\<lambda>seeds programId. if list_ex (\<lambda>s. 32 < length s) seeds then None
         else Some (PublicKey (map (\<lambda>b. b + 1) (last seeds)), 255))
       (getHashedName (ascii ''a'')) None (Some (PublicKey (replicate 32 1)))
     = Inr (PublicKey (replicate 32 2))
   \<and> resolve_UTF8_ONS
       (\<lambda>seeds programId. if list_ex (\<lambda>s. 32 < length s) seeds then None
         else Some (PublicKey (map (\<lambda>b. b + 1) (last seeds)), 255))
       [ascii ''a'', ascii ''b''] None
     = Inr [PublicKey (replicate 32 2), PublicKey (replicate 32 1)]
   \<and> resolve_UTF8_ONS_part000
       (\<lambda>seeds programId. if list_ex (\<lambda>s. 32 < length s) seeds then None
         else Some (PublicKey (map (\<lambda>b. b + 1) (last seeds)), 255))
       [ascii ''a'', ascii ''b''] None
     = Inr [PublicKey (replicate 32 2), PublicKey (replicate 32 1)]"
proof -
  let ?fpa = "\<lambda>seeds (programId :: PublicKey). if list_ex (\<lambda>s. 32 < length s) seeds then None
         else Some (PublicKey (map (\<lambda>b. b + 1) (last seeds)), 255 :: byte)"
  let ?path = "[ascii ''a'', ascii ''b'']"
  let ?keys = "[PublicKey (replicate 32 2), PublicKey (replicate 32 1)]"
  have ne: "?path \<noteq> []" by simp
  have rejects: "?fpa [replicate 33 0] NAME_PROGRAM_ID = None" by simp
  have leaf: "resolveNameAccountKey ?fpa (getHashedName (ascii ''b'')) None None
      = Inr (PublicKey (replicate 32 1))"
    by (simp add: resolveNameAccountKey_def alloc_def length_getHashedName)
  have root: "resolveNameAccountKey ?fpa (getHashedName (ascii ''a'')) None
      (Some (PublicKey (replicate 32 1))) = Inr (PublicKey (replicate 32 2))"
    by (simp add: resolveNameAccountKey_def alloc_def length_getHashedName)
  have step: "resolveNameAccountKey ?fpa (getHashedName (?path ! i)) None (Some (?keys ! Suc i))
             = Inr (?keys ! i)" if "Suc i < length ?path" for i
  proof -
    from that have "i = 0" by simp
    with root show ?thesis by simp
  qed
  have chain: "length ?keys = length ?path
     \<and> resolveNameAccountKey ?fpa (getHashedName (last ?path)) None None = Inr (last ?keys)
     \<and> (\<forall>i. Suc i < length ?path \<longrightarrow>
           resolveNameAccountKey ?fpa (getHashedName (?path ! i)) None (Some (?keys ! Suc i))
             = Inr (?keys ! i))"
  proof (intro conjI allI impI)
    show "length ?keys = length ?path" by simp
    show "resolveNameAccountKey ?fpa (getHashedName (last ?path)) None None = Inr (last ?keys)"
      using leaf by simp
    show "resolveNameAccountKey ?fpa (getHashedName (?path ! i)) None (Some (?keys ! Suc i))
             = Inr (?keys ! i)" if "Suc i < length ?path" for i
      using that by (rule step)
  qed
  note all = resolve_UTF8_ONS_root_to_leaf [OF ne, of ?fpa None]
  have m1: "resolve_UTF8_ONS ?fpa ?path None
      \<in> {resolve_UTF8_ONS ?fpa ?path None, resolve_UTF8_ONS_part000 ?fpa ?path None}"
    by (rule insertI1)
  have m2: "resolve_UTF8_ONS_part000 ?fpa ?path None
      \<in> {resolve_UTF8_ONS ?fpa ?path None, resolve_UTF8_ONS_part000 ?fpa ?path None}"
    by (rule insertI2) (rule insertI1)
  note r1 = all [THEN bspec, OF m1, THEN conjunct2, THEN conjunct2, THEN conjunct1,
      THEN spec, of ?keys, THEN mp, OF chain]
  note r2 = all [THEN bspec, OF m2, THEN conjunct2, THEN conjunct2, THEN conjunct1,
      THEN spec, of ?keys, THEN mp, OF chain]
  show ?thesis
    by (intro conjI) (rule ne rejects leaf root r1 r2)+
qed

text \<open>
  C2. Resolving a suffix of a path from the same \<open>unknownParent\<close> gives the trailing keys
  of the result for the whole path: the last two keys of \<open>["a", "b", "c"]\<close> are the keys
  of \<open>["b", "c"]\<close>, and in general the result for \<open>pre @ suf\<close> is the result for \<open>suf\<close>
  behind the result for \<open>pre\<close> resolved with the first key of the suffix as parent.
\<close>

theorem resolve_UTF8_ONS_suffix:
  assumes "suf \<noteq> []"
  shows "(\<forall>keys. resolve_UTF8_ONS fpa (pre @ suf) up = Inr keys \<longrightarrow>
            resolve_UTF8_ONS fpa suf up = Inr (drop (length pre) keys))
       \<and> (\<forall>a b c keys. resolve_UTF8_ONS fpa [a, b, c] up = Inr keys \<longrightarrow>
            resolve_UTF8_ONS fpa [b, c] up = Inr (drop 1 keys))
       \<and> (pre \<noteq> [] \<longrightarrow> resolve_UTF8_ONS fpa (pre @ suf) up =
            (case resolve_UTF8_ONS fpa suf up of
               Inl e \<Rightarrow> Inl e
             | Inr ks \<Rightarrow>
                 (case resolve_UTF8_ONS fpa pre (Some (hd ks)) of
                    Inl e \<Rightarrow> Inl e | Inr new \<Rightarrow> Inr (new @ ks))))"
proof -
  have general: "resolve_UTF8_ONS fpa suf' up = Inr (drop (length pre') keys)"
    if s: "suf' \<noteq> []" and r: "resolve_UTF8_ONS fpa (pre' @ suf') up = Inr keys"
    for pre' suf' keys
  proof (cases "pre' = []")
    case True
    with r show ?thesis by simp
  next
    case False
    from r obtain ks new where
      ks: "resolve_UTF8_ONS fpa suf' up = Inr ks"
      and new: "resolve_UTF8_ONS fpa pre' (Some (hd ks)) = Inr new"
      and keys: "keys = new @ ks"
      by (auto simp: resolve_append [OF False s] split: sum.splits)
    from resolve_chain [OF False new] have "length new = length pre'"
      by simp
    with ks keys show ?thesis by simp
  qed
  have abc: "resolve_UTF8_ONS fpa [b, c] up = Inr (drop 1 keys)"
    if "resolve_UTF8_ONS fpa [a, b, c] up = Inr keys" for a b c keys
    using general [of "[b, c]" "[a]" keys] that by simp
  from general [OF assms] abc resolve_append [OF _ assms, of pre fpa up]
  show ?thesis by blast
qed



text \<open>
  An instance, with an address function that adds one to every byte of the parent seed.
\<close>

theorem resolve_UTF8_ONS_suffix_witness:
  "[ascii ''b'', ascii ''c''] \<noteq> []
   \<and> resolve_UTF8_ONS (\<lambda>seeds programId. Some (PublicKey (map (\<lambda>b. b + 1) (last seeds)), 255))
       ([ascii ''a''] @ [ascii ''b'', ascii ''c'']) None
     = Inr [PublicKey (replicate 32 3), PublicKey (replicate 32 2), PublicKey (replicate 32 1)]
   \<and> resolve_UTF8_ONS (\<lambda>seeds programId. Some (PublicKey (map (\<lambda>b. b + 1) (last seeds)), 255))
       [ascii ''b'', ascii ''c''] None
     = Inr [PublicKey (replicate 32 2), PublicKey (replicate 32 1)]"
proof -
  let ?fpa = "\<lambda>seeds programId. Some (PublicKey (map (\<lambda>b. b + 1) (last seeds)), 255 :: byte)"
  have ne: "[ascii ''b'', ascii ''c''] \<noteq> []" by simp
  have run: "resolve_UTF8_ONS ?fpa ([ascii ''a''] @ [ascii ''b'', ascii ''c'']) None
      = Inr [PublicKey (replicate 32 3), PublicKey (replicate 32 2), PublicKey (replicate 32 1)]"
    by (simp add: resolve_UTF8_ONS_def loop_step loop_done resolveNameAccountKey_def alloc_def)
  from resolve_UTF8_ONS_suffix [OF ne, of ?fpa "[ascii ''a'']" None] run
  have "resolve_UTF8_ONS ?fpa [ascii ''b'', ascii ''c''] None
      = Inr (drop (length [ascii ''a''])
          [PublicKey (replicate 32 3), PublicKey (replicate 32 2), PublicKey (replicate 32 1)])"
    by blast
  with ne run show ?thesis by simp
qed

section \<open>Properties of the dotted form\<close>

lemma split_loop_not_empty: "split_loop sep cur s \<noteq> []"
  by (induction s arbitrary: cur) simp_all

lemma split_not_empty: "split s sep \<noteq> []"
  by (simp add: split_def split_loop_not_empty)

lemma trim_empty: "trim [] = []"
  by (simp add: trim_def)

text \<open>
  C10. \<open>resolve_STD_ONS\<close> never fails with the empty-path error: splitting the trimmed,
  lower-cased domain at \<open>'.'\<close> always yields at least one label. On the empty domain, which
  lower-cases to itself, it derives the key of the single empty label.
\<close>

theorem resolve_STD_ONS_never_empty_path:
  "split (toLowerCase (trim domain)) 0x2E \<noteq> []
   \<and> resolve_STD_ONS toLowerCase fpa domain up \<noteq> Inl EmptyPath
   \<and> (toLowerCase [] = [] \<longrightarrow>
        resolve_STD_ONS toLowerCase fpa [] up =
          (case resolveNameAccountKey fpa (getHashedName []) None up of
             Inl e \<Rightarrow> Inl e | Inr k \<Rightarrow> Inr [k]))"
proof -
  let ?names = "split (toLowerCase (trim domain)) 0x2E"
  have ne: "?names \<noteq> []"
    by (rule split_not_empty)
  have "resolve_UTF8_ONS fpa ?names up \<noteq> Inl EmptyPath"
  proof
    assume "resolve_UTF8_ONS fpa ?names up = Inl EmptyPath"
    from resolve_error [OF ne this] show False by simp
  qed
  then have never: "resolve_STD_ONS toLowerCase fpa domain up \<noteq> Inl EmptyPath"
    by (simp add: resolve_STD_ONS_def)
  have "resolve_STD_ONS toLowerCase fpa [] up =
          (case resolveNameAccountKey fpa (getHashedName []) None up of
             Inl e \<Rightarrow> Inl e | Inr k \<Rightarrow> Inr [k])"
    if "toLowerCase [] = []"
    using that by (simp add: resolve_STD_ONS_def trim_empty split_def resolve_single)
  with ne never show ?thesis by blast
qed

text \<open>
  An instance, with the lower-casing of the ASCII letters and an address function that adds
  one to every byte of the parent seed.
\<close>

theorem resolve_STD_ONS_never_empty_path_witness:
  "(\<lambda>s. map (\<lambda>u. if 0x41 \<le> u \<and> u \<le> 0x5A then u + 0x20 else u) s) ([] :: jsstring) = []
   \<and> resolve_STD_ONS (\<lambda>s. map (\<lambda>u. if 0x41 \<le> u \<and> u \<le> 0x5A then u + 0x20 else u) s)
       (\<lambda>seeds programId. Some (PublicKey (map (\<lambda>b. b + 1) (last seeds)), 255)) [] None
     = Inr [PublicKey (replicate 32 1)]"
proof -
  let ?lower = "\<lambda>s :: jsstring. map (\<lambda>u. if 0x41 \<le> u \<and> u \<le> 0x5A then u + 0x20 else u) s"
  let ?fpa = "\<lambda>seeds programId. Some (PublicKey (map (\<lambda>b. b + 1) (last seeds)), 255 :: byte)"
  have e: "?lower [] = []" by simp
  have "resolveNameAccountKey ?fpa (getHashedName []) None None = Inr (PublicKey (replicate 32 1))"
    by (simp add: resolveNameAccountKey_def alloc_def)
  with resolve_STD_ONS_never_empty_path [of ?lower "[]" ?fpa None] e
  show ?thesis by simp
qed

section \<open>Properties of the parser\<close>

lemma length_slice:
  "end' \<le> length buf \<Longrightarrow> length (slice buf start end') = end' - start"
  by (simp add: slice_def)

lemma parseNameAccountInfo_header:
  assumes "96 \<le> length (AccountInfo.data acc)"
  shows "parseNameAccountInfo (Some acc) =
    Inr \<lparr> NameAccount.parentName = PublicKey (slice (AccountInfo.data acc) 0 32),
          NameAccount.owner = PublicKey (slice (AccountInfo.data acc) 32 64),
          NameAccount.klass = PublicKey (slice (AccountInfo.data acc) 64 96),
          NameAccount.data = slice_from (AccountInfo.data acc) 96,
          NameAccount.lamports = AccountInfo.lamports acc,
          NameAccount.rentEpoch = AccountInfo.rentEpoch acc \<rparr>"
proof -
  let ?d = "AccountInfo.data acc"
  have p: "new_PublicKey (slice ?d 0 32) = Inr (PublicKey (slice ?d 0 32))"
    using assms by (intro new_PublicKey_32) (simp add: length_slice)
  have ow: "new_PublicKey (slice ?d 32 64) = Inr (PublicKey (slice ?d 32 64))"
    using assms by (intro new_PublicKey_32) (simp add: length_slice)
  have c: "new_PublicKey (slice ?d 64 96) = Inr (PublicKey (slice ?d 64 96))"
    using assms by (intro new_PublicKey_32) (simp add: length_slice)
  show ?thesis
    using assms by (simp add: parseNameAccountInfo_def falsy_def andThen_def p ow c)
qed

lemma parseNameAccountInfo_part000_header:
  assumes "96 \<le> length (AccountInfo.data acc)"
  shows "parseNameAccountInfo_part000 nameKey (Some acc) =
    Inr \<lparr> AccountInfo.executable = AccountInfo.executable acc,
          AccountInfo.owner = AccountInfo.owner acc,
          AccountInfo.lamports = AccountInfo.lamports acc,
          AccountInfo.data =
            \<lparr> NameData.name = nameKey,
              NameData.parentName = PublicKey (slice (AccountInfo.data acc) 0 32),
              NameData.owner = PublicKey (slice (AccountInfo.data acc) 32 64),
              NameData.klass = PublicKey (slice (AccountInfo.data acc) 64 96),
              NameData.extra = slice_from (AccountInfo.data acc) 96 \<rparr>,
          AccountInfo.rentEpoch = AccountInfo.rentEpoch acc \<rparr>"
proof -
  let ?d = "AccountInfo.data acc"
  have p: "new_PublicKey (slice ?d 0 32) = Inr (PublicKey (slice ?d 0 32))"
    using assms by (intro new_PublicKey_32) (simp add: length_slice)
  have ow: "new_PublicKey (slice ?d 32 64) = Inr (PublicKey (slice ?d 32 64))"
    using assms by (intro new_PublicKey_32) (simp add: length_slice)
  have c: "new_PublicKey (slice ?d 64 96) = Inr (PublicKey (slice ?d 64 96))"
    using assms by (intro new_PublicKey_32) (simp add: length_slice)
  show ?thesis
    using assms by (simp add: parseNameAccountInfo_part000_def falsy_def andThen_def p ow c)
qed

lemma parseNameAccountInfo_short:
  "length (AccountInfo.data acc) < 96 \<Longrightarrow> parseNameAccountInfo (Some acc) = Inl InvalidNameAccountData"
  by (simp add: parseNameAccountInfo_def)

lemma parseNameAccountInfo_part000_short:
  "length (AccountInfo.data acc) < 96 \<Longrightarrow>
   parseNameAccountInfo_part000 nameKey (Some acc) = Inl InvalidNameAccountData"
  by (simp add: parseNameAccountInfo_part000_def)

lemma slices_of_concat:
  assumes "length a = 32" "length b = 32" "length c = 32"
  shows "slice (a @ b @ c @ p) 0 32 = a" "slice (a @ b @ c @ p) 32 64 = b"
        "slice (a @ b @ c @ p) 64 96 = c" "slice_from (a @ b @ c @ p) 96 = p"
  using assms by (simp_all add: slice_def slice_from_def)

text \<open>
  C5. An account whose data is a parent, an owner and a class of 32 bytes each followed by a
  payload of any length parses, in both variants of the file, to the record of these four:
  the parent is bytes 0 to 31 of the data, the owner bytes 32 to 63, the class bytes 64 to
  95 and the payload the rest.
\<close>

theorem parseNameAccountInfo_roundtrip:
  assumes "length parent = 32" "length owner' = 32" "length class' = 32"
    and "AccountInfo.data acc = parent @ owner' @ class' @ payload"
  shows "parseNameAccountInfo (Some acc) =
      Inr \<lparr> NameAccount.parentName = PublicKey parent,
            NameAccount.owner = PublicKey owner',
            NameAccount.klass = PublicKey class',
            NameAccount.data = payload,
            NameAccount.lamports = AccountInfo.lamports acc,
            NameAccount.rentEpoch = AccountInfo.rentEpoch acc \<rparr>
    \<and> parseNameAccountInfo_part000 nameKey (Some acc) =
      Inr \<lparr> AccountInfo.executable = AccountInfo.executable acc,
            AccountInfo.owner = AccountInfo.owner acc,
            AccountInfo.lamports = AccountInfo.lamports acc,
            AccountInfo.data =
              \<lparr> NameData.name = nameKey,
                NameData.parentName = PublicKey parent,
                NameData.owner = PublicKey owner',
                NameData.klass = PublicKey class',
                NameData.extra = payload \<rparr>,
            AccountInfo.rentEpoch = AccountInfo.rentEpoch acc \<rparr>
    \<and> parent = slice (AccountInfo.data acc) 0 32
    \<and> owner' = slice (AccountInfo.data acc) 32 64
    \<and> class' = slice (AccountInfo.data acc) 64 96
    \<and> payload = slice_from (AccountInfo.data acc) 96"
proof -
  have len: "96 \<le> length (AccountInfo.data acc)"
    using assms by simp
  note cut = slices_of_concat [OF assms(1-3), of payload, folded assms(4)]
  show ?thesis
    using parseNameAccountInfo_header [OF len]
      parseNameAccountInfo_part000_header [OF len, of nameKey]
    by (simp add: cut)
qed

text \<open>An instance: a parent of zero bytes and a payload of two bytes.\<close>

theorem parseNameAccountInfo_roundtrip_witness:
  "length (replicate 32 (0 :: byte)) = 32 \<and> length (replicate 32 (1 :: byte)) = 32
   \<and> length (replicate 32 (2 :: byte)) = 32
   \<and> parseNameAccountInfo
       (Some \<lparr> AccountInfo.executable = True, AccountInfo.owner = NAME_PROGRAM_ID,
               AccountInfo.lamports = 5 :: nat,
               AccountInfo.data = replicate 32 0 @ replicate 32 1 @ replicate 32 2 @ [3, 4],
               AccountInfo.rentEpoch = None \<rparr>) =
      Inr \<lparr> NameAccount.parentName = PublicKey (replicate 32 0),
            NameAccount.owner = PublicKey (replicate 32 1),
            NameAccount.klass = PublicKey (replicate 32 2),
            NameAccount.data = [3, 4],
            NameAccount.lamports = 5,
            NameAccount.rentEpoch = None \<rparr>
   \<and> parseNameAccountInfo_part000 (PublicKey (replicate 32 9))
       (Some \<lparr> AccountInfo.executable = True, AccountInfo.owner = NAME_PROGRAM_ID,
               AccountInfo.lamports = 5 :: nat,
               AccountInfo.data = replicate 32 0 @ replicate 32 1 @ replicate 32 2 @ [3, 4],
               AccountInfo.rentEpoch = None \<rparr>) =
      Inr \<lparr> AccountInfo.executable = True, AccountInfo.owner = NAME_PROGRAM_ID,
            AccountInfo.lamports = 5,
            AccountInfo.data =
              \<lparr> NameData.name = PublicKey (replicate 32 9),
                NameData.parentName = PublicKey (replicate 32 0),
                NameData.owner = PublicKey (replicate 32 1),
                NameData.klass = PublicKey (replicate 32 2),
                NameData.extra = [3, 4] \<rparr>,
            AccountInfo.rentEpoch = None \<rparr>"
  using parseNameAccountInfo_roundtrip
    [of "replicate 32 0" "replicate 32 1" "replicate 32 2"
        "\<lparr> AccountInfo.executable = True, AccountInfo.owner = NAME_PROGRAM_ID,
           AccountInfo.lamports = 5 :: nat,
           AccountInfo.data = replicate 32 0 @ replicate 32 1 @ replicate 32 2 @ [3, 4],
           AccountInfo.rentEpoch = None \<rparr>" "[3, 4]" "PublicKey (replicate 32 9)"]
  by simp

text \<open>
  C6. In both variants of the file \<open>parseNameAccountInfo\<close> fails with the account-not-found
  error exactly when the account is absent, and with the invalid-data error exactly when
  the account is present with fewer than 96 bytes of data; it returns no record then.
\<close>

theorem parseNameAccountInfo_errors:
  "(parseNameAccountInfo nameAccount = Inl AccountNotFound \<longleftrightarrow> nameAccount = None)
   \<and> (parseNameAccountInfo_part000 nameKey nameAccount = Inl AccountNotFound
        \<longleftrightarrow> nameAccount = None)
   \<and> (length (AccountInfo.data acc) < 96 \<longrightarrow>
         parseNameAccountInfo (Some acc) = Inl InvalidNameAccountData
       \<and> parseNameAccountInfo_part000 nameKey (Some acc) = Inl InvalidNameAccountData)
   \<and> (parseNameAccountInfo (Some acc) = Inl InvalidNameAccountData
        \<longleftrightarrow> length (AccountInfo.data acc) < 96)
   \<and> (parseNameAccountInfo_part000 nameKey (Some acc) = Inl InvalidNameAccountData
        \<longleftrightarrow> length (AccountInfo.data acc) < 96)"
proof -
  have none: "parseNameAccountInfo None = Inl AccountNotFound"
    "parseNameAccountInfo_part000 nameKey None = Inl AccountNotFound"
    by (simp_all add: parseNameAccountInfo_def parseNameAccountInfo_part000_def)
  have some: "parseNameAccountInfo (Some a) \<noteq> Inl AccountNotFound"
    "parseNameAccountInfo_part000 nameKey (Some a) \<noteq> Inl AccountNotFound" for a
  proof -
    show "parseNameAccountInfo (Some a) \<noteq> Inl AccountNotFound"
    proof (cases "length (AccountInfo.data a) < 96")
      case True
      then show ?thesis by (simp add: parseNameAccountInfo_short)
    next
      case False
      then have "96 \<le> length (AccountInfo.data a)" by simp
      from parseNameAccountInfo_header [OF this] show ?thesis by simp
    qed
    show "parseNameAccountInfo_part000 nameKey (Some a) \<noteq> Inl AccountNotFound"
    proof (cases "length (AccountInfo.data a) < 96")
      case True
      then show ?thesis by (simp add: parseNameAccountInfo_part000_short)
    next
      case False
      then have "96 \<le> length (AccountInfo.data a)" by simp
      from parseNameAccountInfo_part000_header [OF this] show ?thesis by simp
    qed
  qed
  have long: "parseNameAccountInfo (Some acc) \<noteq> Inl InvalidNameAccountData"
    "parseNameAccountInfo_part000 nameKey (Some acc) \<noteq> Inl InvalidNameAccountData"
    if "96 \<le> length (AccountInfo.data acc)"
    using parseNameAccountInfo_header [OF that] parseNameAccountInfo_part000_header [OF that]
    by simp_all
  have a: "parseNameAccountInfo nameAccount = Inl AccountNotFound \<longleftrightarrow> nameAccount = None"
    using none some by (cases nameAccount) simp_all
  have b: "parseNameAccountInfo_part000 nameKey nameAccount = Inl AccountNotFound
      \<longleftrightarrow> nameAccount = None"
    using none some by (cases nameAccount) simp_all
  have c: "parseNameAccountInfo (Some acc) = Inl InvalidNameAccountData
      \<longleftrightarrow> length (AccountInfo.data acc) < 96"
    using long(1) parseNameAccountInfo_short [of acc]
    by (cases "length (AccountInfo.data acc) < 96") simp_all
  have d: "parseNameAccountInfo_part000 nameKey (Some acc) = Inl InvalidNameAccountData
      \<longleftrightarrow> length (AccountInfo.data acc) < 96"
    using long(2) parseNameAccountInfo_part000_short [of acc nameKey]
    by (cases "length (AccountInfo.data acc) < 96") simp_all
  from a b c d show ?thesis by blast
qed

text \<open>An instance: an account with 95 bytes of data, and the absent account.\<close>

theorem parseNameAccountInfo_errors_witness:
  "length (AccountInfo.data
      \<lparr> AccountInfo.executable = False, AccountInfo.owner = NAME_PROGRAM_ID,
        AccountInfo.lamports = 5 :: nat, AccountInfo.data = replicate 95 (7 :: byte),
        AccountInfo.rentEpoch = Some 2 \<rparr>) < 96
   \<and> parseNameAccountInfo
       (Some \<lparr> AccountInfo.executable = False, AccountInfo.owner = NAME_PROGRAM_ID,
               AccountInfo.lamports = 5 :: nat, AccountInfo.data = replicate 95 7,
               AccountInfo.rentEpoch = Some 2 \<rparr>) = Inl InvalidNameAccountData
   \<and> parseNameAccountInfo_part000 NAME_PROGRAM_ID
       (Some \<lparr> AccountInfo.executable = False, AccountInfo.owner = NAME_PROGRAM_ID,
               AccountInfo.lamports = 5 :: nat, AccountInfo.data = replicate 95 7,
               AccountInfo.rentEpoch = Some 2 \<rparr>) = Inl InvalidNameAccountData
   \<and> parseNameAccountInfo (None :: (Buffer, nat) AccountInfo option) = Inl AccountNotFound
   \<and> parseNameAccountInfo_part000 NAME_PROGRAM_ID (None :: (Buffer, nat) AccountInfo option)
       = Inl AccountNotFound"
  using parseNameAccountInfo_errors
    [of "None :: (Buffer, nat) AccountInfo option" NAME_PROGRAM_ID
        "\<lparr> AccountInfo.executable = False, AccountInfo.owner = NAME_PROGRAM_ID,
           AccountInfo.lamports = 5 :: nat, AccountInfo.data = replicate 95 7,
           AccountInfo.rentEpoch = Some 2 \<rparr>"]
  by simp

text \<open>
  C9, as stated, fails for \<open>parseNameAccountInfo\<close> of src/index.ts: its result has no
  \<open>executable\<close> field, and its \<open>owner\<close> is the owner of the name, read from the data, not the
  program that owns the account. Two accounts that differ in both fields parse to the same
  result.
\<close>

theorem parseNameAccountInfo_account_fields_counterexample:
  "parseNameAccountInfo
     (Some \<lparr> AccountInfo.executable = True, AccountInfo.owner = NAME_PROGRAM_ID,
             AccountInfo.lamports = 5 :: nat, AccountInfo.data = replicate 96 7,
             AccountInfo.rentEpoch = Some 2 \<rparr>) =
   Inr \<lparr> NameAccount.parentName = PublicKey (replicate 32 7),
         NameAccount.owner = PublicKey (replicate 32 7),
         NameAccount.klass = PublicKey (replicate 32 7),
         NameAccount.data = [],
         NameAccount.lamports = 5,
         NameAccount.rentEpoch = Some 2 \<rparr>
   \<and> PublicKey (replicate 32 7) \<noteq> NAME_PROGRAM_ID
   \<and> parseNameAccountInfo
     (Some \<lparr> AccountInfo.executable = False, AccountInfo.owner = PublicKey (replicate 32 1),
             AccountInfo.lamports = 5 :: nat, AccountInfo.data = replicate 96 7,
             AccountInfo.rentEpoch = Some 2 \<rparr>) =
   Inr \<lparr> NameAccount.parentName = PublicKey (replicate 32 7),
         NameAccount.owner = PublicKey (replicate 32 7),
         NameAccount.klass = PublicKey (replicate 32 7),
         NameAccount.data = [],
         NameAccount.lamports = 5,
         NameAccount.rentEpoch = Some 2 \<rparr>"
proof -
  have cut: "slice (replicate 96 (7 :: byte)) 0 32 = replicate 32 7"
    "slice (replicate 96 (7 :: byte)) 32 64 = replicate 32 7"
    "slice (replicate 96 (7 :: byte)) 64 96 = replicate 32 7"
    "slice_from (replicate 96 (7 :: byte)) 96 = []"
    by (simp_all add: slice_def slice_from_def)
  have "PublicKey (replicate 32 7) \<noteq> NAME_PROGRAM_ID"
    by (simp add: NAME_PROGRAM_ID_def numeral_eq_Suc)
  then show ?thesis
    by (simp add: parseNameAccountInfo_header cut)
qed

text \<open>
  C9, amended. For an account with at least 96 bytes of data, the variant that returns a
  \<open>NameInfo\<close> passes \<open>executable\<close>, \<open>owner\<close>, \<open>lamports\<close> and \<open>rentEpoch\<close> through unchanged;
  \<open>parseNameAccountInfo\<close> of src/index.ts passes \<open>lamports\<close> and \<open>rentEpoch\<close> through, its
  \<open>owner\<close> is the key in bytes 32 to 63 of the data, and its result does not depend on
  \<open>executable\<close> or on the owner of the account.
\<close>

theorem parseNameAccountInfo_pass_through:
  assumes "96 \<le> length (AccountInfo.data acc)"
  shows "(\<exists>info. parseNameAccountInfo_part000 nameKey (Some acc) = Inr info
          \<and> AccountInfo.executable info = AccountInfo.executable acc
          \<and> AccountInfo.owner info = AccountInfo.owner acc
          \<and> AccountInfo.lamports info = AccountInfo.lamports acc
          \<and> AccountInfo.rentEpoch info = AccountInfo.rentEpoch acc)
    \<and> (\<exists>r. parseNameAccountInfo (Some acc) = Inr r
          \<and> NameAccount.lamports r = AccountInfo.lamports acc
          \<and> NameAccount.rentEpoch r = AccountInfo.rentEpoch acc
          \<and> NameAccount.owner r = PublicKey (slice (AccountInfo.data acc) 32 64))
    \<and> parseNameAccountInfo
          (Some (acc\<lparr> AccountInfo.executable := flag, AccountInfo.owner := program \<rparr>))
        = parseNameAccountInfo (Some acc)"
  using assms
    parseNameAccountInfo_header [OF assms]
    parseNameAccountInfo_header
      [of "acc\<lparr> AccountInfo.executable := flag, AccountInfo.owner := program \<rparr>"]
    parseNameAccountInfo_part000_header [OF assms, of nameKey]
  by simp

text \<open>An instance: an account with a header and no payload.\<close>

theorem parseNameAccountInfo_pass_through_witness:
  "96 \<le> length (AccountInfo.data
      \<lparr> AccountInfo.executable = True, AccountInfo.owner = NAME_PROGRAM_ID,
        AccountInfo.lamports = 5 :: nat, AccountInfo.data = replicate 96 (7 :: byte),
        AccountInfo.rentEpoch = Some 2 \<rparr>)
   \<and> (\<exists>info. parseNameAccountInfo_part000 (PublicKey (replicate 32 9))
          (Some \<lparr> AccountInfo.executable = True, AccountInfo.owner = NAME_PROGRAM_ID,
                  AccountInfo.lamports = 5 :: nat, AccountInfo.data = replicate 96 7,
                  AccountInfo.rentEpoch = Some 2 \<rparr>) = Inr info
        \<and> AccountInfo.executable info = True
        \<and> AccountInfo.owner info = NAME_PROGRAM_ID
        \<and> AccountInfo.lamports info = 5
        \<and> AccountInfo.rentEpoch info = Some 2)
   \<and> (\<exists>r. parseNameAccountInfo
          (Some \<lparr> AccountInfo.executable = True, AccountInfo.owner = NAME_PROGRAM_ID,
                  AccountInfo.lamports = 5 :: nat, AccountInfo.data = replicate 96 7,
                  AccountInfo.rentEpoch = Some 2 \<rparr>) = Inr r
        \<and> NameAccount.lamports r = 5
        \<and> NameAccount.rentEpoch r = Some 2)"
  using parseNameAccountInfo_pass_through
    [where acc = "\<lparr> AccountInfo.executable = True, AccountInfo.owner = NAME_PROGRAM_ID,
           AccountInfo.lamports = 5 :: nat, AccountInfo.data = replicate 96 7,
           AccountInfo.rentEpoch = Some 2 \<rparr>"
       and nameKey = "PublicKey (replicate 32 9)"
       and flag = False and program = "PublicKey (replicate 32 1)"]
  by auto

end
